theory Spec2Isabelle
  imports Complex_Main "HOL-Library.Log_Nat"
begin

section \<open>The lottery plugin: data model\<close>

text \<open>
  The plugin keeps no state of its own between calls: the lottery document, the ticket
  documents, the character documents and the balances all live in external services
  (the document database, the currency plugin, the notification plugin). The embedding
  threads one record holding what those services store through every operation, in the
  order in which the source awaits the calls. Every call to a service answers; the
  ticket collection named by \<open>lotteryConfig.ticketCollection\<close> is a collection of its
  own, apart from \<open>misc\<close> and \<open>Characters\<close>.

  Amounts of money (\<open>jackpot\<close>, \<open>ticketPrice\<close>, balances) are JavaScript numbers, and
  the arithmetic on them (\<open>+=\<close>, \<open>Math.floor(a / b)\<close>) is the arithmetic of doubles.
\<close>

type_synonym uuid = string

text \<open>
  A JavaScript \<open>number\<close>: not-a-number, the two infinities, or a finite double,
  kept as the rational it denotes (the two zeros are one value: they compare equal
  and the code never tells them apart).
\<close>

datatype number = NaN | PosInfinity | NegInfinity | Finite rat

text \<open>
  \<open>interface LotteryTicket\<close>. A ticket read back from the collection carries the
  \<open>_id\<close> the database gave it (\<open>LotteryTicket & { _id: string }\<close> in the source), so
  the field is not optional here.
\<close>

record LotteryTicket =
  ticket_id :: string
  ticketNumbers :: "number list"
  playerUUID :: uuid

text \<open>
  \<open>interface ASCLottery\<close>, the document \<open>{ type: 'lottery' }\<close> of collection
  \<open>misc\<close>. \<open>lastDrawDate\<close> is a time value in milliseconds.
\<close>

record ASCLottery =
  ticketPrice :: number
  jackpot :: number
  lastDrawDate :: int
  winningNumbers :: "number list"

text \<open>The fields of a \<open>Character\<close> document that the plugin reads.\<close>

record Character =
  character_id :: uuid
  name :: string

text \<open>\<open>lotteryConfig\<close> of \<open>config.js\<close>, whose values are parameters of the model.\<close>

record lotteryConfig =
  cfg_ticketPrice :: number
  initialJackpot :: number

text \<open>Modelled from the spec: the currency ledger of the currency plugin, one balance
  per identity and account (\<open>cash\<close>, \<open>bank\<close>).\<close>

record ledger =
  cash :: "uuid \<Rightarrow> number"
  bank :: "uuid \<Rightarrow> number"

text \<open>What the notification plugin is asked to deliver.\<close>

datatype notification =
    AlreadyHaveTicket uuid
  | NotEnoughMoney uuid
  | DrawAnnouncement "number list" string

text \<open>
  Everything the external services hold: the lottery document of \<open>misc\<close> (if any), the
  ticket collection in insertion order, the \<open>Characters\<close> collection, the ledger and
  the notifications sent so far.
\<close>

record store =
  lottery :: "ASCLottery option"
  tickets :: "LotteryTicket list"
  characters :: "Character list"
  currency :: ledger
  sent :: "notification list"

section \<open>Numbers\<close>

text \<open>
  \<open>Number(s)\<close> on a string is the conversion \<open>StringToNumber\<close> of the language
  standard: white space is trimmed; the empty string is \<open>0\<close>; a decimal literal with
  optional sign, fraction and exponent, \<open>Infinity\<close> with optional sign, or an unsigned
  binary, octal or hexadecimal integer literal is its value rounded to a double; any
  other text is \<open>NaN\<close>. Strings are lists of code units below 256, which leaves out
  the white space characters beyond \<open>U+00A0\<close>.
\<close>

definition isStrWhiteSpaceChar :: "char \<Rightarrow> bool" where
  "isStrWhiteSpaceChar c \<longleftrightarrow>
     (of_char c :: int) \<in> {0x09, 0x0A, 0x0B, 0x0C, 0x0D, 0x20, 0xA0}"

definition trimString :: "string \<Rightarrow> string" where
  "trimString s = rev (dropWhile isStrWhiteSpaceChar (rev (dropWhile isStrWhiteSpaceChar s)))"

text \<open>The value of a digit in a radix up to 16, if the character is one.\<close>

definition digitValue :: "int \<Rightarrow> char \<Rightarrow> int option" where
  "digitValue radix c =
     (let n = (of_char c :: int);
          v = (if 48 \<le> n \<and> n \<le> 57 then Some (n - 48)
               else if 97 \<le> n \<and> n \<le> 102 then Some (n - 87)
               else if 65 \<le> n \<and> n \<le> 70 then Some (n - 55)
               else None)
      in case v of None \<Rightarrow> None | Some d \<Rightarrow> if d < radix then Some d else None)"

text \<open>The value of a non-empty run of digits; \<open>None\<close> for the empty string and for a
  string with any other character.\<close>

fun digitsFrom :: "int \<Rightarrow> int \<Rightarrow> string \<Rightarrow> int option" where
  "digitsFrom radix acc [] = Some acc"
| "digitsFrom radix acc (c # cs) =
     (case digitValue radix c of
        None \<Rightarrow> None
      | Some d \<Rightarrow> digitsFrom radix (acc * radix + d) cs)"

definition digits :: "int \<Rightarrow> string \<Rightarrow> int option" where
  "digits radix cs = (if cs = [] then None else digitsFrom radix 0 cs)"

text \<open>The same, where the grammar allows the run to be empty (value \<open>0\<close>).\<close>

definition digits_opt :: "int \<Rightarrow> string \<Rightarrow> int option" where
  "digits_opt radix cs = digitsFrom radix 0 cs"

definition pow2 :: "int \<Rightarrow> rat" where
  "pow2 e = (if 0 \<le> e then 2 ^ nat e else 1 / 2 ^ nat (- e))"

definition pow10 :: "int \<Rightarrow> rat" where
  "pow10 e = (if 0 \<le> e then 10 ^ nat e else 1 / 10 ^ nat (- e))"

text \<open>For \<open>q > 0\<close>, the exponent \<open>e\<close> with \<open>2 ^ e \<le> q < 2 ^ (e + 1)\<close>.\<close>

definition ilog2 :: "rat \<Rightarrow> int" where
  "ilog2 q =
     (let (a, b) = quotient_of q;
          d = bitlen a - bitlen b
      in if pow2 d \<le> q then d else d - 1)"

definition roundTiesToEven :: "rat \<Rightarrow> int" where
  "roundTiesToEven x =
     (let f = \<lfloor>x\<rfloor>; r = x - of_int f
      in if r < 1 / 2 then f
         else if 1 / 2 < r then f + 1
         else if even f then f else f + 1)"

text \<open>
  The double nearest to a rational, ties to the even significand: 53 significant bits,
  least exponent \<open>-1022\<close> (below it the spacing stays \<open>2 ^ -1074\<close>), and an infinity
  when the rounded value reaches \<open>2 ^ 1024\<close>, that is, when its exponent exceeds
  \<open>1023\<close>.
\<close>

definition toDouble :: "rat \<Rightarrow> number" where
  "toDouble x =
     (if x = 0 then Finite 0
      else
        (let a = \<bar>x\<bar>;
             e = max (ilog2 a) (- 1022);
             u = pow2 (e - 52);
             v = of_int (roundTiesToEven (a / u)) * u
         in if 1024 \<le> ilog2 v then (if 0 < x then PosInfinity else NegInfinity)
            else Finite (if 0 < x then v else - v)))"

text \<open>The exponent part after the \<open>e\<close> or \<open>E\<close>: an optional sign and digits.\<close>

definition signedInteger :: "string \<Rightarrow> int option" where
  "signedInteger cs =
     (case cs of
        [] \<Rightarrow> None
      | c # rest \<Rightarrow>
          if c = CHR ''+'' then digits 10 rest
          else if c = CHR ''-'' then map_option uminus (digits 10 rest)
          else digits 10 cs)"

text \<open>The digits before and after the point: \<open>1.5\<close>, \<open>1.\<close>, \<open>.5\<close> or \<open>15\<close>, never a point
  alone.\<close>

definition decimalMantissa :: "string \<Rightarrow> rat option" where
  "decimalMantissa cs =
     (let ip = takeWhile (\<lambda>c. c \<noteq> CHR ''.'') cs;
          rest = dropWhile (\<lambda>c. c \<noteq> CHR ''.'') cs
      in case rest of
           [] \<Rightarrow> map_option of_int (digits 10 ip)
         | dot # fp \<Rightarrow>
             if ip = [] \<and> fp = [] then None
             else (case (digits_opt 10 ip, digits_opt 10 fp) of
                     (Some i, Some f) \<Rightarrow> Some (of_int i + of_int f / 10 ^ length fp)
                   | _ \<Rightarrow> None))"

definition isExponentIndicator :: "char \<Rightarrow> bool" where
  "isExponentIndicator c \<longleftrightarrow> c = CHR ''e'' \<or> c = CHR ''E''"

text \<open>An unsigned decimal literal other than \<open>Infinity\<close>: its exact value.\<close>

definition unsignedDecimal :: "string \<Rightarrow> rat option" where
  "unsignedDecimal cs =
     (let m = takeWhile (\<lambda>c. \<not> isExponentIndicator c) cs;
          rest = dropWhile (\<lambda>c. \<not> isExponentIndicator c) cs
      in case rest of
           [] \<Rightarrow> decimalMantissa m
         | ind # ex \<Rightarrow>
             (case (decimalMantissa m, signedInteger ex) of
                (Some v, Some k) \<Rightarrow> Some (v * pow10 k)
              | _ \<Rightarrow> None))"

definition strDecimalLiteral :: "string \<Rightarrow> number" where
  "strDecimalLiteral cs =
     (let negative = (cs \<noteq> [] \<and> hd cs = CHR ''-'');
          body = (if cs \<noteq> [] \<and> (hd cs = CHR ''+'' \<or> hd cs = CHR ''-'') then tl cs else cs)
      in if body = ''Infinity'' then (if negative then NegInfinity else PosInfinity)
         else (case unsignedDecimal body of
                 None \<Rightarrow> NaN
               | Some v \<Rightarrow> toDouble (if negative then - v else v)))"

text \<open>The radix that a prefix \<open>0b\<close>, \<open>0o\<close> or \<open>0x\<close> (in either case) announces.\<close>

definition prefixRadix :: "string \<Rightarrow> int option" where
  "prefixRadix cs =
     (case cs of
        z # p # rest \<Rightarrow>
          if z \<noteq> CHR ''0'' then None
          else if p = CHR ''b'' \<or> p = CHR ''B'' then Some 2
          else if p = CHR ''o'' \<or> p = CHR ''O'' then Some 8
          else if p = CHR ''x'' \<or> p = CHR ''X'' then Some 16
          else None
      | _ \<Rightarrow> None)"

definition Number :: "string \<Rightarrow> number" where
  "Number s =
     (let t = trimString s
      in if t = [] then Finite 0
         else (case prefixRadix t of
                 Some radix \<Rightarrow>
                   (case digits radix (drop 2 t) of
                      None \<Rightarrow> NaN
                    | Some n \<Rightarrow> toDouble (of_int n))
               | None \<Rightarrow> strDecimalLiteral t))"

text \<open>The global \<open>isNaN\<close> on a number.\<close>

definition isNaN :: "number \<Rightarrow> bool" where
  "isNaN n \<longleftrightarrow> n = NaN"

text \<open>The operator \<open><\<close> on numbers: false whenever an operand is \<open>NaN\<close>.\<close>

fun less_number :: "number \<Rightarrow> number \<Rightarrow> bool" where
  "less_number NaN _ = False"
| "less_number _ NaN = False"
| "less_number (Finite a) (Finite b) = (a < b)"
| "less_number (Finite a) PosInfinity = True"
| "less_number (Finite a) NegInfinity = False"
| "less_number NegInfinity (Finite b) = True"
| "less_number NegInfinity PosInfinity = True"
| "less_number NegInfinity NegInfinity = False"
| "less_number PosInfinity _ = False"

text \<open>The operator \<open><=\<close> on numbers, false as well whenever an operand is \<open>NaN\<close>.\<close>

definition less_eq_number :: "number \<Rightarrow> number \<Rightarrow> bool" where
  "less_eq_number a b \<longleftrightarrow> less_number a b \<or> (a = b \<and> a \<noteq> NaN)"

text \<open>
  The operators \<open>*\<close>, \<open>+\<close> and \<open>-\<close> on numbers: the exact result rounded to a double,
  with the rules of the standard for \<open>NaN\<close> and the infinities.
\<close>

fun times_number :: "number \<Rightarrow> number \<Rightarrow> number" where
  "times_number NaN _ = NaN"
| "times_number _ NaN = NaN"
| "times_number (Finite a) (Finite b) = toDouble (a * b)"
| "times_number (Finite a) PosInfinity =
     (if a = 0 then NaN else if 0 < a then PosInfinity else NegInfinity)"
| "times_number (Finite a) NegInfinity =
     (if a = 0 then NaN else if 0 < a then NegInfinity else PosInfinity)"
| "times_number PosInfinity (Finite b) =
     (if b = 0 then NaN else if 0 < b then PosInfinity else NegInfinity)"
| "times_number NegInfinity (Finite b) =
     (if b = 0 then NaN else if 0 < b then NegInfinity else PosInfinity)"
| "times_number PosInfinity PosInfinity = PosInfinity"
| "times_number PosInfinity NegInfinity = NegInfinity"
| "times_number NegInfinity PosInfinity = NegInfinity"
| "times_number NegInfinity NegInfinity = PosInfinity"

fun plus_number :: "number \<Rightarrow> number \<Rightarrow> number" where
  "plus_number NaN _ = NaN"
| "plus_number _ NaN = NaN"
| "plus_number (Finite a) (Finite b) = toDouble (a + b)"
| "plus_number (Finite a) PosInfinity = PosInfinity"
| "plus_number (Finite a) NegInfinity = NegInfinity"
| "plus_number PosInfinity (Finite b) = PosInfinity"
| "plus_number NegInfinity (Finite b) = NegInfinity"
| "plus_number PosInfinity PosInfinity = PosInfinity"
| "plus_number PosInfinity NegInfinity = NaN"
| "plus_number NegInfinity PosInfinity = NaN"
| "plus_number NegInfinity NegInfinity = NegInfinity"

fun minus_number :: "number \<Rightarrow> number \<Rightarrow> number" where
  "minus_number NaN _ = NaN"
| "minus_number _ NaN = NaN"
| "minus_number (Finite a) (Finite b) = toDouble (a - b)"
| "minus_number (Finite a) PosInfinity = NegInfinity"
| "minus_number (Finite a) NegInfinity = PosInfinity"
| "minus_number PosInfinity (Finite b) = PosInfinity"
| "minus_number NegInfinity (Finite b) = NegInfinity"
| "minus_number PosInfinity PosInfinity = NaN"
| "minus_number PosInfinity NegInfinity = PosInfinity"
| "minus_number NegInfinity PosInfinity = NegInfinity"
| "minus_number NegInfinity NegInfinity = NaN"

text \<open>
  \<open>x / xs.length\<close>: a number divided by the length of an array, which is a
  non-negative integer below \<open>2 ^ 32\<close>, the positive zero when the array is empty.
\<close>

fun divide_by_length :: "number \<Rightarrow> nat \<Rightarrow> number" where
  "divide_by_length NaN n = NaN"
| "divide_by_length PosInfinity n = PosInfinity"
| "divide_by_length NegInfinity n = NegInfinity"
| "divide_by_length (Finite a) n =
     (if n = 0 then (if a = 0 then NaN else if 0 < a then PosInfinity else NegInfinity)
      else toDouble (a / of_nat n))"

definition Math_floor :: "number \<Rightarrow> number" where
  "Math_floor x = (case x of Finite v \<Rightarrow> Finite (of_int \<lfloor>v\<rfloor>) | _ \<Rightarrow> x)"

text \<open>What \<open>Math.random()\<close> can answer: a double from 0 up to, not including, 1.\<close>

definition Math_random_result :: "rat \<Rightarrow> bool" where
  "Math_random_result r \<longleftrightarrow> toDouble r = Finite r \<and> 0 \<le> r \<and> r < 1"

section \<open>The external services\<close>

text \<open>Modelled from the spec: \<open>debit(identity, account, amount) \<rightarrow> bool\<close> of the
  currency ledger, here \<open>useCurrency(id, 'Character').sub('cash', amount)\<close>: the debit
  succeeds exactly when the balance covers the amount, and a failed debit changes
  nothing.\<close>

definition sub_cash ::
  "uuid \<Rightarrow> number \<Rightarrow> ledger \<Rightarrow> bool \<times> ledger" where
  "sub_cash p amount l =
     (if less_eq_number amount (cash l p)
      then (True, l\<lparr>cash := (cash l)(p := minus_number (cash l p) amount)\<rparr>)
      else (False, l))"

text \<open>Modelled from the spec: \<open>credit(identity, account, amount) \<rightarrow> void\<close> of the
  currency ledger, here \<open>useCurrency(id, 'Character').add('bank', amount)\<close>.\<close>

definition add_bank :: "uuid \<Rightarrow> number \<Rightarrow> ledger \<Rightarrow> ledger" where
  "add_bank p amount l = l\<lparr>bank := (bank l)(p := plus_number (bank l p) amount)\<rparr>"

text \<open>Modelled from the spec: \<open>delete(id, collection) \<rightarrow> bool\<close> of the document store
  removes the document with that id (the first one, should several carry it).\<close>

fun deleteDocument ::
  "string \<Rightarrow> LotteryTicket list \<Rightarrow> LotteryTicket list" where
  "deleteDocument i [] = []"
| "deleteDocument i (t # ts) = (if ticket_id t = i then ts else t # deleteDocument i ts)"

text \<open>Modelled from the spec: \<open>get(query, collection) \<rightarrow> record|null\<close> of the document
  store, here the query \<open>{ playerUUID: id }\<close> on the ticket collection: the first
  ticket of that owner, if any.\<close>

definition getTicketOf ::
  "uuid \<Rightarrow> LotteryTicket list \<Rightarrow> LotteryTicket option" where
  "getTicketOf p ts = find (\<lambda>t. playerUUID t = p) ts"

text \<open>Modelled from the spec: the same \<open>get\<close> with the query \<open>{ _id: id }\<close> on
  \<open>Characters\<close>, the identity resolution of the draw.\<close>

definition getCharacter :: "uuid \<Rightarrow> Character list \<Rightarrow> Character option" where
  "getCharacter p cs = find (\<lambda>c. character_id c = p) cs"

section \<open>Drawing the winning numbers\<close>

definition numberRange_min :: int where
  "numberRange_min = 1"

definition numberRange_max :: int where
  "numberRange_max = 49"

text \<open>\<open>numbers.add(x)\<close> on a JavaScript \<open>Set\<close>, which keeps insertion order and
  ignores a value it already holds (\<open>NaN\<close> counts as equal to itself there).\<close>

definition Set_add :: "number list \<Rightarrow> number \<Rightarrow> number list" where
  "Set_add numbers x = (if x \<in> set numbers then numbers else numbers @ [x])"

text \<open>\<open>Math.floor(Math.random() * (max - min + 1)) + min\<close> for one result \<open>r\<close> of
  \<open>Math.random()\<close>. The bounds are integers small enough for \<open>max - min + 1\<close> to
  be exact.\<close>

definition randomNumber :: "int \<Rightarrow> int \<Rightarrow> rat \<Rightarrow> number" where
  "randomNumber mn mx r =
     plus_number (Math_floor (times_number (Finite r) (Finite (of_int (mx - mn + 1)))))
       (Finite (of_int mn))"

text \<open>
  The loop of \<open>generateRandomNumbers\<close>, with the set built so far. The list holds the
  successive results of \<open>Math.random()\<close>; the loop has no bound of its own, and \<open>None\<close>
  says that it is still running when those results are used up.
\<close>

fun generateRandomNumbers_loop ::
  "nat \<Rightarrow> int \<Rightarrow> int \<Rightarrow> rat list \<Rightarrow> number list \<Rightarrow> number list option" where
  "generateRandomNumbers_loop count mn mx [] numbers =
     (if length numbers < count then None else Some numbers)"
| "generateRandomNumbers_loop count mn mx (r # rs) numbers =
     (if length numbers < count
      then generateRandomNumbers_loop count mn mx rs (Set_add numbers (randomNumber mn mx r))
      else Some numbers)"

definition generateRandomNumbers ::
  "nat \<Rightarrow> int \<Rightarrow> int \<Rightarrow> rat list \<Rightarrow> number list option" where
  "generateRandomNumbers count mn mx rs = generateRandomNumbers_loop count mn mx rs []"

text \<open>The loop over \<open>winningTickets\<close>: every ticket whose owner resolves to a character
  has the share credited to that character's bank balance, and the name of the last
  one resolved is kept for the announcement.\<close>

fun payWinners ::
  "Character list \<Rightarrow> number \<Rightarrow> LotteryTicket list \<Rightarrow> string \<times> ledger \<Rightarrow> string \<times> ledger" where
  "payWinners cs jackpotShare [] acc = acc"
| "payWinners cs jackpotShare (ticket # rest) (winnerName, l) =
     (case getCharacter (playerUUID ticket) cs of
        None \<Rightarrow> payWinners cs jackpotShare rest (winnerName, l)
      | Some winnerCharacter \<Rightarrow>
          payWinners cs jackpotShare rest
            (name winnerCharacter, add_bank (character_id winnerCharacter) jackpotShare l))"

text \<open>The loop over \<open>allTickets\<close> that deletes each ticket by its id.\<close>

definition deleteTickets ::
  "LotteryTicket list \<Rightarrow> LotteryTicket list \<Rightarrow> LotteryTicket list" where
  "deleteTickets allTickets ts = fold (\<lambda>ticket. deleteDocument (ticket_id ticket)) allTickets ts"

text \<open>The body of \<open>if (winningTickets.length > 0)\<close>: the payout and the jackpot reset.\<close>

definition payout ::
  "lotteryConfig \<Rightarrow> ASCLottery \<Rightarrow> store \<Rightarrow> string \<times> ASCLottery \<times> store" where
  "payout cfg lotteryState s =
     (let winningTickets = tickets s in
      if length winningTickets > 0 then
        (let jackpotShare = Math_floor (divide_by_length (jackpot lotteryState) (length winningTickets));
             (winnerName, l) =
               payWinners (characters s) jackpotShare winningTickets (''No Winner today.'', currency s);
             lotteryState' = lotteryState\<lparr>jackpot := initialJackpot cfg\<rparr>
         in (winnerName, lotteryState', s\<lparr>currency := l, lottery := Some lotteryState'\<rparr>))
      else (''No Winner today.'', lotteryState, s))"

text \<open>
  \<open>drawWinningNumbers\<close>, given the time of the call and the results of
  \<open>Math.random()\<close>. It returns the winning numbers and the store after the draw;
  \<open>None\<close> says that the number generator did not come back.
\<close>

definition drawWinningNumbers ::
  "lotteryConfig \<Rightarrow> int \<Rightarrow> rat list \<Rightarrow> store \<Rightarrow> (number list \<times> store) option" where
  "drawWinningNumbers cfg now rs s =
     (case lottery s of
        None \<Rightarrow> Some ([], s)
      | Some lotteryState \<Rightarrow>
          (case generateRandomNumbers 6 numberRange_min numberRange_max rs of
             None \<Rightarrow> None
           | Some ws \<Rightarrow>
               (let lotteryState1 = lotteryState\<lparr>winningNumbers := ws, lastDrawDate := now\<rparr>;
                    s1 = s\<lparr>lottery := Some lotteryState1\<rparr>;
                    (winnerName, lotteryState2, s2) = payout cfg lotteryState1 s1;
                    s3 = s2\<lparr>sent := sent s2 @ [DrawAnnouncement (winningNumbers lotteryState2) winnerName]\<rparr>;
                    allTickets = tickets s3;
                    s4 = s3\<lparr>tickets := deleteTickets allTickets (tickets s3)\<rparr>
                in Some (winningNumbers lotteryState2, s4))))"

section \<open>Scheduling the draw\<close>

text \<open>
  A \<open>Date\<close> is its time value: milliseconds of local time. The offset of the time zone
  is taken as constant from \<open>now\<close> to \<open>nextDraw\<close>, so that the difference of two
  \<open>getTime()\<close> values is the difference of the local time values; across a change of
  the offset the delay differs by that change, the local time of \<open>nextDraw\<close> does
  not. \<open>Day\<close>, \<open>TimeWithinDay\<close>, \<open>MakeTime\<close> and \<open>MakeDate\<close> are the operations of the language standard that the \<open>Date\<close> constructor and \<open>setDate\<close>
  are defined by: \<open>new Date(y, m, d, h, min, 0, 0)\<close> with the year, month and date of
  \<open>now\<close> is \<open>MakeDate (Day now) (MakeTime h min 0 0)\<close>, and
  \<open>setDate(getDate() + 1)\<close> moves to the next day, keeping the time within the day.
  This is the behaviour for the dates a clock gives: from the year 100 on (the
  constructor reads a smaller year as one of the twentieth century) and inside the
  range of time values.
\<close>

definition msPerDay :: int where
  "msPerDay = 86400000"

definition Day :: "int \<Rightarrow> int" where
  "Day t = t div msPerDay"

definition TimeWithinDay :: "int \<Rightarrow> int" where
  "TimeWithinDay t = t mod msPerDay"

definition MakeTime ::
  "int \<Rightarrow> int \<Rightarrow> int \<Rightarrow> int \<Rightarrow> int" where
  "MakeTime h m sec ms = h * 3600000 + m * 60000 + sec * 1000 + ms"

definition MakeDate :: "int \<Rightarrow> int \<Rightarrow> int" where
  "MakeDate day time = day * msPerDay + time"

definition drawTime_hour :: int where
  "drawTime_hour = 18"

definition drawTime_minute :: int where
  "drawTime_minute = 0"

text \<open>\<open>scheduleDraw\<close> called at \<open>now\<close>: the instant \<open>nextDraw\<close> and the delay
  \<open>timeUntilDraw\<close> handed to \<open>setTimeout\<close>.\<close>

definition scheduleDraw :: "int \<Rightarrow> int \<times> int" where
  "scheduleDraw now =
     (let nextDraw = MakeDate (Day now) (MakeTime drawTime_hour drawTime_minute 0 0);
          nextDraw' = (if now > nextDraw
                       then MakeDate (Day nextDraw + 1) (TimeWithinDay nextDraw)
                       else nextDraw);
          timeUntilDraw = nextDraw' - now
      in (nextDraw', timeUntilDraw))"

section \<open>Buying a ticket\<close>

text \<open>\<open>numbersString.split(' ')\<close>: the pieces between single space characters, empty
  pieces included; the empty string gives one empty piece.\<close>

fun split_space :: "string \<Rightarrow> string list" where
  "split_space [] = [[]]"
| "split_space (c # cs) =
     (if c = CHR '' '' then [] # split_space cs
      else (case split_space cs of
              [] \<Rightarrow> [[c]]
            | t # ts \<Rightarrow> (c # t) # ts))"

definition parseTicketNumbers :: "string \<Rightarrow> number list option" where
  "parseTicketNumbers numbersString =
     (let numbers = map Number (split_space numbersString)
      in if length numbers \<noteq> 6 \<or> list_ex isNaN numbers
            \<or> list_ex (\<lambda>n. less_number n (Finite 1) \<or> less_number (Finite 49) n) numbers
         then None
         else Some numbers)"

text \<open>
  \<open>buyTicket\<close> for the character \<open>rPlayer_id\<close> of the player. \<open>created\<close> is what
  \<open>Database.create\<close> answers for the new ticket: the id it stored the document under,
  or nothing, in which case nothing was stored. The test \<open>!ticketId\<close> holds for no
  answer and for the empty string. The result is the ticket or \<open>None\<close> for \<open>null\<close>,
  with the store after the call. \<open>Database.update\<close> writes the lottery document back.
\<close>

definition buyTicket ::
  "lotteryConfig \<Rightarrow> string option \<Rightarrow> uuid \<Rightarrow> string \<Rightarrow> store \<Rightarrow> LotteryTicket option \<times> store" where
  "buyTicket cfg created rPlayer_id numbers s =
     (case parseTicketNumbers numbers of
        None \<Rightarrow> (None, s)
      | Some ticketNumbers' \<Rightarrow>
          (case getTicketOf rPlayer_id (tickets s) of
             Some existingTicket \<Rightarrow> (None, s\<lparr>sent := sent s @ [AlreadyHaveTicket rPlayer_id]\<rparr>)
           | None \<Rightarrow>
               (case sub_cash rPlayer_id (cfg_ticketPrice cfg) (currency s) of
                  (False, l) \<Rightarrow> (None, s\<lparr>sent := sent s @ [NotEnoughMoney rPlayer_id]\<rparr>)
                | (True, l) \<Rightarrow>
                    (let s1 = s\<lparr>currency := l\<rparr>
                     in case created of
                          None \<Rightarrow> (None, s1)
                        | Some ticketId \<Rightarrow>
                            (let newTicket = \<lparr>ticket_id = ticketId, ticketNumbers = ticketNumbers',
                                              playerUUID = rPlayer_id\<rparr>;
                                 s2 = s1\<lparr>tickets := tickets s1 @ [newTicket]\<rparr>
                             in if ticketId = [] then (None, s2)
                                else
                                  (let s3 = (case lottery s2 of
                                               None \<Rightarrow> s2
                                             | Some lotteryState \<Rightarrow>
                                                 s2\<lparr>lottery := Some (lotteryState
                                                   \<lparr>jackpot := plus_number (jackpot lotteryState)
                                                                 (ticketPrice lotteryState)\<rparr>)\<rparr>)
                                   in (Some newTicket, s3)))))))"

section \<open>Auxiliary notions and sample data\<close>

text \<open>How many ticket documents name \<open>p\<close> as their owner.\<close>

definition ticketsOf :: "uuid \<Rightarrow> LotteryTicket list \<Rightarrow> nat" where
  "ticketsOf p ts = length (filter (\<lambda>t. playerUUID t = p) ts)"

text \<open>A configuration and stores on which the operations are run below: character
  \<open>A\<close> has 150 in cash, character \<open>B\<close> has none, and \<open>C\<close> is no character at all.\<close>

definition sample_config :: lotteryConfig where
  "sample_config = \<lparr>cfg_ticketPrice = Finite 100, initialJackpot = Finite 500\<rparr>"

definition sample_ledger :: ledger where
  "sample_ledger =
     \<lparr>cash = (\<lambda>p. if p = ''A'' then Finite 150 else Finite 0), bank = (\<lambda>p. Finite 0)\<rparr>"

definition sample_characters :: "Character list" where
  "sample_characters =
     [\<lparr>character_id = ''A'', name = ''Alice''\<rparr>, \<lparr>character_id = ''B'', name = ''Bob''\<rparr>]"

definition sample_ticket :: "string \<Rightarrow> uuid \<Rightarrow> LotteryTicket" where
  "sample_ticket i p =
     \<lparr>ticket_id = i,
      ticketNumbers = [Finite 1, Finite 2, Finite 3, Finite 4, Finite 5, Finite 6],
      playerUUID = p\<rparr>"

definition sample_store ::
  "int \<Rightarrow> int \<Rightarrow> LotteryTicket list \<Rightarrow> store" where
  "sample_store price pot ts =
     \<lparr>lottery = Some \<lparr>ticketPrice = Finite (of_int price), jackpot = Finite (of_int pot),
                      lastDrawDate = 0, winningNumbers = []\<rparr>,
      tickets = ts, characters = sample_characters, currency = sample_ledger, sent = []\<rparr>"

text \<open>The same store without a lottery document.\<close>

definition sample_store_no_lottery :: "LotteryTicket list \<Rightarrow> store" where
  "sample_store_no_lottery ts =
     \<lparr>lottery = None, tickets = ts, characters = sample_characters,
      currency = sample_ledger, sent = []\<rparr>"

text \<open>Results of \<open>Math.random()\<close> that yield \<open>1, 1, 2, 25, 37, 49, 16\<close>.\<close>

definition sample_random :: "rat list" where
  "sample_random = [0, 1 / 128, 1 / 32, 1 / 2, 3 / 4, 127 / 128, 5 / 16, 3 / 8]"

text \<open>Three tickets, the last of an owner that is no character, and the outcome of a
  draw on the sample results of \<open>Math.random()\<close>.\<close>

abbreviation sample_tickets :: "LotteryTicket list" where
  "sample_tickets \<equiv>
     [sample_ticket ''t1'' ''A'', sample_ticket ''t2'' ''B'', sample_ticket ''t3'' ''C'']"

text \<open>Three tickets again, two of them of \<open>A\<close>.\<close>

abbreviation sample_tickets_twice :: "LotteryTicket list" where
  "sample_tickets_twice \<equiv>
     [sample_ticket ''t1'' ''A'', sample_ticket ''t2'' ''A'', sample_ticket ''t3'' ''B'']"

abbreviation sample_drawn :: "store \<Rightarrow> number list \<times> store" where
  "sample_drawn s \<equiv> the (drawWinningNumbers sample_config 0 sample_random s)"

section \<open>Rounding to doubles\<close>

lemma pow2_powi: "pow2 e = 2 powi e"
proof (cases "0 \<le> e")
  case True
  then show ?thesis by (simp add: pow2_def power_int_def)
next
  case False
  then show ?thesis by (simp add: pow2_def power_int_def power_one_over inverse_eq_divide)
qed

lemma pow2_pos: "0 < pow2 e"
  by (simp add: pow2_powi)

lemma pow2_add: "pow2 (a + b) = pow2 a * pow2 b"
  by (simp add: pow2_powi power_int_add)

lemma pow2_mono: "a \<le> b \<Longrightarrow> pow2 a \<le> pow2 b"
  by (simp add: pow2_powi power_int_increasing)

lemma pow2_less_cancel: "pow2 a < pow2 b \<Longrightarrow> a < b"
  using pow2_mono [of b a] by (cases "a < b") auto

lemma pow2_nat: "0 \<le> e \<Longrightarrow> pow2 e = 2 ^ nat e"
  by (simp add: pow2_def)

lemma bitlen_rat_bounds:
  assumes "0 < a"
  shows "pow2 (bitlen a - 1) \<le> of_int a" and "of_int a < pow2 (bitlen a)"
proof -
  have b: "2 ^ nat (bitlen a - 1) \<le> a" "a < 2 ^ nat (bitlen a)"
    using bitlen_bounds [OF assms] by simp_all
  have ge: "1 \<le> bitlen a" using assms by (simp add: bitlen_alt_def)
  have "(of_int (2 ^ nat (bitlen a - 1)) :: rat) \<le> of_int a"
    using b(1) by (simp only: of_int_le_iff)
  then show "pow2 (bitlen a - 1) \<le> of_int a"
    using ge by (simp add: pow2_nat)
  have "(of_int a :: rat) < of_int (2 ^ nat (bitlen a))"
    using b(2) by (simp only: of_int_less_iff)
  then show "of_int a < pow2 (bitlen a)"
    using ge by (simp add: pow2_nat)
qed

lemma ilog2_bounds:
  assumes "0 < q"
  shows "pow2 (ilog2 q) \<le> q" and "q < pow2 (ilog2 q + 1)"
proof -
  obtain a b where ab: "quotient_of q = (a, b)" by (cases "quotient_of q")
  have bpos: "0 < b" using ab by (rule quotient_of_denom_pos)
  have q: "q = of_int a / of_int b" using ab by (rule quotient_of_div)
  have apos: "0 < a"
    using assms bpos unfolding q by (simp add: zero_less_divide_iff)
  define d where "d = bitlen a - bitlen b"
  note A = bitlen_rat_bounds [OF apos]
  note B = bitlen_rat_bounds [OF bpos]
  have bq: "(0::rat) < of_int b" using bpos by simp
  have up: "q < pow2 (d + 1)"
  proof -
    have "q * of_int b < pow2 (bitlen a)" using A(2) bq unfolding q by simp
    also have "\<dots> = pow2 (d + 1) * pow2 (bitlen b - 1)"
      unfolding d_def pow2_add [symmetric] by simp
    also have "\<dots> \<le> pow2 (d + 1) * of_int b"
      using B(1) pow2_pos [of "d + 1"] by (simp add: mult_left_mono)
    finally show ?thesis using bq by simp
  qed
  have lo: "pow2 (d - 1) < q"
  proof -
    have "pow2 (d - 1) * of_int b < pow2 (d - 1) * pow2 (bitlen b)"
      using B(2) pow2_pos [of "d - 1"] by (simp add: mult_strict_left_mono)
    also have "\<dots> = pow2 (bitlen a - 1)"
      unfolding d_def pow2_add [symmetric] by simp
    also have "\<dots> \<le> q * of_int b" using A(1) bq unfolding q by simp
    finally show ?thesis using bq by simp
  qed
  have il: "ilog2 q = (if pow2 d \<le> q then d else d - 1)"
    by (simp add: ilog2_def ab d_def Let_def)
  show "pow2 (ilog2 q) \<le> q" using lo by (simp add: il)
  show "q < pow2 (ilog2 q + 1)" using up by (simp add: il)
qed

lemma ilog2_less: "0 < q \<Longrightarrow> q < pow2 n \<Longrightarrow> ilog2 q < n"
  using ilog2_bounds(1) [of q] pow2_less_cancel [of "ilog2 q" n] by simp

lemma ilog2_ge: "0 < q \<Longrightarrow> pow2 n \<le> q \<Longrightarrow> n \<le> ilog2 q"
  using ilog2_bounds(2) [of q] pow2_less_cancel [of n "ilog2 q + 1"] by simp

lemma roundTiesToEven_of_int: "roundTiesToEven (of_int k) = k"
  by (simp add: roundTiesToEven_def)

lemma roundTiesToEven_nonneg: "0 \<le> x \<Longrightarrow> 0 \<le> roundTiesToEven x"
  by (simp add: roundTiesToEven_def Let_def)

lemma roundTiesToEven_below:
  assumes "x < of_int K - 1 / 2"
  shows "roundTiesToEven x \<le> K - 1"
proof -
  define f where "f = \<lfloor>x\<rfloor>"
  have f: "of_int f \<le> x" "x < of_int f + 1" unfolding f_def by linarith+
  have fk: "f \<le> K - 1"
  proof -
    have "(of_int f :: rat) < of_int K" using f(1) assms by linarith
    then have "f < K" by (simp only: of_int_less_iff)
    then show ?thesis by simp
  qed
  show ?thesis
  proof (cases "x - of_int f < 1 / 2")
    case True
    then show ?thesis using fk by (simp add: roundTiesToEven_def f_def)
  next
    case False
    then have "(of_int f :: rat) + 1 < of_int K" using assms by linarith
    then have "(of_int (f + 1) :: rat) < of_int K" by simp
    then have "f + 1 < K" by (simp only: of_int_less_iff)
    then show ?thesis using fk by (simp add: roundTiesToEven_def f_def [symmetric] Let_def)
  qed
qed

lemma toDouble_pos:
  assumes "0 < x"
  shows "toDouble x =
     (if 1024 \<le> ilog2 (of_int (roundTiesToEven (x / pow2 (max (ilog2 x) (- 1022) - 52)))
                        * pow2 (max (ilog2 x) (- 1022) - 52))
      then PosInfinity
      else Finite (of_int (roundTiesToEven (x / pow2 (max (ilog2 x) (- 1022) - 52)))
                        * pow2 (max (ilog2 x) (- 1022) - 52)))"
  using assms by (simp add: toDouble_def Let_def)

lemma toDouble_of_int:
  assumes "0 \<le> j" and "j < 2 ^ 53"
  shows "toDouble (of_int j) = Finite (of_int j)"
proof (cases "j = 0")
  case True
  then show ?thesis by (simp add: toDouble_def)
next
  case False
  then have jpos: "0 < j" using assms(1) by simp
  define e where "e = ilog2 (of_int j)"
  have q: "(0::rat) < of_int j" using jpos by simp
  have "pow2 0 \<le> (of_int j :: rat)" using jpos by (simp add: pow2_def)
  then have e0: "0 \<le> e" unfolding e_def using q by (rule ilog2_ge [rotated])
  have "(of_int j :: rat) < of_int (2 ^ 53)" using assms(2) by (simp only: of_int_less_iff)
  then have "(of_int j :: rat) < pow2 53" by (simp add: pow2_def)
  then have e53: "e < 53" unfolding e_def using q by (rule ilog2_less [rotated])
  define n where "n = nat (52 - e)"
  have u: "pow2 (e - 52) = 1 / 2 ^ n"
    using e53 by (auto simp: pow2_def n_def)
  have "of_int j / pow2 (e - 52) = (of_int (j * 2 ^ n) :: rat)"
    unfolding u by simp
  then have r: "roundTiesToEven (of_int j / pow2 (e - 52)) = j * 2 ^ n"
    by (simp only: roundTiesToEven_of_int)
  have v: "of_int (j * 2 ^ n) * pow2 (e - 52) = (of_int j :: rat)"
    unfolding u by simp
  have m: "max e (- 1022) = e" using e0 by simp
  have "toDouble (of_int j) =
      (if 1024 \<le> ilog2 (of_int j :: rat) then PosInfinity else Finite (of_int j))"
    unfolding toDouble_pos [OF q] e_def [symmetric] m r v ..
  then show ?thesis using e53 by (simp add: e_def)
qed

lemma ilog2_zero: "ilog2 0 = - 2"
  by code_simp

lemma toDouble_random_49:
  assumes "0 \<le> r" and "r \<le> 1 - 1 / 2 ^ 53"
  shows "\<exists>v. toDouble (r * 49) = Finite v \<and> 0 \<le> v \<and> v < 49"
proof (cases "r = 0")
  case True
  then show ?thesis by (simp add: toDouble_def)
next
  case False
  then have rpos: "0 < r" using assms(1) by simp
  define x where "x = r * 49"
  have xpos: "0 < x" using rpos by (simp add: x_def)
  have "r < 1" using assms(2) by simp
  then have x49: "x < 49" by (simp add: x_def)
  define e where "e = max (ilog2 x) (- 1022)"
  have "x < pow2 6" using x49 by (simp add: pow2_def)
  then have "ilog2 x < 6" using xpos by (rule ilog2_less [rotated])
  then have e5: "e \<le> 5" by (simp add: e_def)
  define n where "n = nat (52 - e)"
  have n47: "47 \<le> n" using e5 by (simp add: n_def)
  have u: "pow2 (e - 52) = 1 / 2 ^ n"
    using e5 by (auto simp: pow2_def n_def)
  define K :: int where "K = 49 * 2 ^ n"
  have xu: "x / pow2 (e - 52) = r * of_int K"
    unfolding u K_def x_def by simp
  have p: "(2::rat) ^ 47 \<le> 2 ^ n" by (rule power_increasing [OF n47]) simp
  have "r * of_int K \<le> (1 - 1 / 2 ^ 53) * of_int K"
    using assms(2) by (intro mult_right_mono) (simp_all add: K_def)
  also have "\<dots> = of_int K - 49 * 2 ^ n / 2 ^ 53" by (simp add: K_def algebra_simps)
  also have "\<dots> \<le> of_int K - 49 * 2 ^ 47 / 2 ^ 53" using p by (simp add: divide_right_mono)
  also have "\<dots> < of_int K - 1 / 2" by simp
  finally have below: "x / pow2 (e - 52) < of_int K - 1 / 2" unfolding xu .
  define m where "m = roundTiesToEven (x / pow2 (e - 52))"
  have m_le: "m \<le> K - 1" unfolding m_def using below by (rule roundTiesToEven_below)
  have m_ge: "0 \<le> m" unfolding m_def using xpos pow2_pos [of "e - 52"]
    by (intro roundTiesToEven_nonneg) simp
  define v where "v = of_int m * pow2 (e - 52)"
  have v0: "0 \<le> v" unfolding v_def using m_ge pow2_pos [of "e - 52"] by simp
  have "(of_int m :: rat) \<le> of_int (K - 1)" using m_le by (simp only: of_int_le_iff)
  then have "v \<le> of_int (K - 1) * pow2 (e - 52)"
    unfolding v_def using pow2_pos [of "e - 52"] by (simp add: mult_right_mono)
  also have "\<dots> = 49 - 1 / 2 ^ n" unfolding u K_def by (simp add: algebra_simps)
  also have "\<dots> < 49" by simp
  finally have v49: "v < 49" .
  have fin: "\<not> 1024 \<le> ilog2 v"
  proof (cases "v = 0")
    case True
    then show ?thesis by (simp add: ilog2_zero)
  next
    case False
    then have "0 < v" using v0 by simp
    moreover have "v < pow2 6" using v49 by (simp add: pow2_def)
    ultimately have "ilog2 v < 6" by (rule ilog2_less)
    then show ?thesis by simp
  qed
  have "toDouble x = (if 1024 \<le> ilog2 v then PosInfinity else Finite v)"
    unfolding toDouble_pos [OF xpos] e_def [symmetric] m_def [symmetric] v_def [symmetric] ..
  then have "toDouble x = Finite v" using fin by simp
  then show ?thesis using v0 v49 unfolding x_def by blast
qed

lemma double_below_one:
  assumes "toDouble r = Finite r" and "0 \<le> r" and "r < 1"
  shows "r \<le> 1 - 1 / 2 ^ 53"
proof (cases "r = 0")
  case True
  then show ?thesis by simp
next
  case False
  then have rpos: "0 < r" using assms(2) by simp
  have "r < pow2 0" using assms(3) by (simp add: pow2_def)
  then have neg: "ilog2 r < 0" using rpos by (rule ilog2_less [rotated])
  show ?thesis
  proof (cases "ilog2 r = - 1")
    case True
    then have e: "max (ilog2 r) (- 1022) = - 1" by simp
    define m where "m = roundTiesToEven (r / pow2 (- 1 - 52))"
    have "Finite r = (if 1024 \<le> ilog2 (of_int m * pow2 (- 1 - 52)) then PosInfinity
                      else Finite (of_int m * pow2 (- 1 - 52)))"
      using assms(1) unfolding toDouble_pos [OF rpos] e m_def [symmetric] by simp
    then have "r = of_int m * pow2 (- 1 - 52)" by (simp split: if_splits)
    then have r: "r = of_int m / 2 ^ 53" by (simp add: pow2_def)
    then have "(of_int m :: rat) < of_int (2 ^ 53)" using assms(3) by simp
    then have "m < 2 ^ 53" by (simp only: of_int_less_iff)
    then have "m \<le> 2 ^ 53 - 1" by simp
    then have "(of_int m :: rat) \<le> of_int (2 ^ 53 - 1)" by (simp only: of_int_le_iff)
    then show ?thesis unfolding r by (simp add: field_simps)
  next
    case False
    then have "ilog2 r + 1 \<le> - 1" using neg by simp
    then have "pow2 (ilog2 r + 1) \<le> pow2 (- 1)" by (rule pow2_mono)
    then have "r < 1 / 2" using ilog2_bounds(2) [OF rpos] by (simp add: pow2_def)
    then show ?thesis by simp
  qed
qed

subsection \<open>The floor of a quotient of doubles\<close>

lemma roundTiesToEven_ge:
  assumes "of_int K \<le> x"
  shows "K \<le> roundTiesToEven x"
proof -
  have "K \<le> \<lfloor>x\<rfloor>" using assms by (simp add: le_floor_iff)
  then show ?thesis by (simp add: roundTiesToEven_def Let_def)
qed

lemma toDouble_numeral:
  "numeral w < (2::int) ^ 53 \<Longrightarrow> toDouble (numeral w) = Finite (numeral w)"
  using toDouble_of_int [of "numeral w"] by simp

lemma toDouble_between:
  assumes "0 \<le> k" and "k < 2 ^ 53" and "of_int k \<le> x"
    and "x \<le> of_int k + 1 - 1 / of_int n" and "0 < n" and "of_int n * x < 2 ^ 53"
  shows "\<exists>v. toDouble x = Finite v \<and> of_int k \<le> v \<and> v < of_int k + 1"
proof (cases "x = 0")
  case True
  then have "k = 0" using assms(1,3) by simp
  then show ?thesis using True by (simp add: toDouble_def)
next
  case False
  then have xpos: "0 < x" using assms(1,3) by simp
  have npos: "(0::rat) < of_int n" using assms(5) by simp
  define e where "e = max (ilog2 x) (- 1022)"
  have "0 < 1 / (of_int n :: rat)" using npos by simp
  then have xk1: "x < of_int k + 1" using assms(4) by linarith
  have "k + 1 \<le> 2 ^ 53" using assms(2) by simp
  then have "(of_int (k + 1) :: rat) \<le> of_int (2 ^ 53)" by (simp only: of_int_le_iff)
  then have k1: "of_int k + 1 \<le> (2::rat) ^ 53" by simp
  have "x < pow2 53" using xk1 k1 by (simp add: pow2_def)
  then have "ilog2 x < 53" using xpos by (rule ilog2_less [rotated])
  then have e52: "e \<le> 52" by (simp add: e_def)
  define n0 where "n0 = nat (52 - e)"
  have u: "pow2 (e - 52) = 1 / 2 ^ n0"
    using e52 by (auto simp: pow2_def n0_def)
  have xu: "x / pow2 (e - 52) = x * 2 ^ n0" unfolding u by simp
  define B :: int where "B = (k + 1) * 2 ^ n0"
  have below: "x * 2 ^ n0 < of_int B - 1 / 2"
  proof (cases "ilog2 x < - 1022")
    case True
    then have e: "e = - 1022" by (simp add: e_def)
    have n0: "n0 = 1074" by (simp add: n0_def e)
    have "x < pow2 (ilog2 x + 1)" using xpos by (rule ilog2_bounds(2))
    also have "\<dots> \<le> pow2 (- 1022)" using True by (intro pow2_mono) simp
    finally have x: "x < 1 / 2 ^ 1022" by (simp add: pow2_def)
    have "x * 2 ^ 1074 < (1 / 2 ^ 1022) * 2 ^ 1074"
      using x by (intro mult_strict_right_mono) simp_all
    also have "\<dots> = (2::rat) ^ 52" by simp
    also have "\<dots> \<le> 2 ^ 1074 - 1 / 2" by simp
    also have "\<dots> \<le> of_int ((k + 1) * 2 ^ 1074) - 1 / 2"
      using assms(1) by (simp add: algebra_simps)
    finally show ?thesis unfolding B_def n0 .
  next
    case False
    then have e: "e = ilog2 x" by (simp add: e_def)
    have "pow2 e \<le> x" unfolding e using xpos by (rule ilog2_bounds(1))
    then have "of_int n * pow2 e \<le> of_int n * x" using npos by simp
    then have ne: "of_int n * pow2 e < 2 ^ 53" using assms(6) by simp
    have pe: "pow2 e = 2 ^ 52 / 2 ^ n0"
    proof -
      have "pow2 e = pow2 52 * pow2 (e - 52)" unfolding pow2_add [symmetric] by simp
      then show ?thesis unfolding u by (simp add: pow2_def)
    qed
    have "of_int n * 2 ^ 52 < (2::rat) ^ 53 * 2 ^ n0"
      using ne unfolding pe by (simp add: field_simps)
    then have half: "of_int n < (2::rat) * 2 ^ n0" by simp
    then have "(1::rat) / 2 < 2 ^ n0 / of_int n" using npos by (simp add: field_simps)
    moreover have "x * 2 ^ n0 \<le> (of_int k + 1 - 1 / of_int n) * 2 ^ n0"
      using assms(4) by (intro mult_right_mono) simp_all
    moreover have "(of_int k + 1 - 1 / of_int n) * 2 ^ n0 = (of_int B :: rat) - 2 ^ n0 / of_int n"
      by (simp add: B_def algebra_simps)
    ultimately show ?thesis by simp
  qed
  define m where "m = roundTiesToEven (x / pow2 (e - 52))"
  have m_le: "m \<le> B - 1" unfolding m_def xu using below by (rule roundTiesToEven_below)
  have "(of_int (k * 2 ^ n0) :: rat) \<le> x * 2 ^ n0"
    using assms(3) by (simp add: mult_right_mono)
  then have m_ge: "k * 2 ^ n0 \<le> m" unfolding m_def xu by (rule roundTiesToEven_ge)
  define v where "v = of_int m * pow2 (e - 52)"
  have "(of_int (k * 2 ^ n0) :: rat) \<le> of_int m" using m_ge by (simp only: of_int_le_iff)
  then have "of_int (k * 2 ^ n0) * (1 / 2 ^ n0) \<le> v"
    unfolding v_def u by (intro mult_right_mono) simp_all
  then have vk: "of_int k \<le> v" by simp
  have "(of_int m :: rat) \<le> of_int (B - 1)" using m_le by (simp only: of_int_le_iff)
  then have "v \<le> of_int (B - 1) * (1 / 2 ^ n0)"
    unfolding v_def u by (intro mult_right_mono) simp_all
  also have "\<dots> = of_int k + 1 - 1 / 2 ^ n0" by (simp add: B_def field_simps)
  also have "\<dots> < of_int k + 1" by simp
  finally have vk1: "v < of_int k + 1" .
  have fin: "\<not> 1024 \<le> ilog2 v"
  proof (cases "v = 0")
    case True
    then show ?thesis by (simp add: ilog2_zero)
  next
    case False
    then have "0 < v" using vk assms(1) by simp
    moreover have "v < pow2 53"
      using vk1 k1 by (simp add: pow2_def)
    ultimately have "ilog2 v < 53" by (rule ilog2_less)
    then show ?thesis by simp
  qed
  have "toDouble x = (if 1024 \<le> ilog2 v then PosInfinity else Finite v)"
    unfolding toDouble_pos [OF xpos] e_def [symmetric] m_def [symmetric] v_def [symmetric] ..
  then have "toDouble x = Finite v" using fin by simp
  then show ?thesis using vk vk1 by blast
qed

lemma floor_quotient_double:
  assumes "0 \<le> j" and "j < 2 ^ 53" and "0 < n"
  shows "Math_floor (divide_by_length (Finite (of_int j)) n) = Finite (of_int (j div int n))"
proof -
  define x :: rat where "x = of_int j / of_int (int n)"
  define k where "k = j div int n"
  have npos: "0 < int n" using assms(3) by simp
  have nr: "(0::rat) < of_int (int n)" using npos by simp
  have fl: "\<lfloor>x\<rfloor> = k" unfolding x_def k_def by (rule floor_divide_of_int_eq)
  have k0: "0 \<le> k" unfolding k_def using assms(1) npos by (simp add: pos_imp_zdiv_nonneg_iff)
  have j: "j = k * int n + j mod int n" unfolding k_def by simp
  have "k * 1 \<le> k * int n" using k0 npos by (intro mult_left_mono) simp_all
  moreover have "0 \<le> j mod int n" using npos by simp
  ultimately have "k \<le> j" using j by linarith
  then have k53: "k < 2 ^ 53" using assms(2) by simp
  have lo: "of_int k \<le> x" unfolding fl [symmetric] by (rule of_int_floor_le)
  have "j mod int n \<le> int n - 1" using npos by simp
  then have "j \<le> k * int n + int n - 1" using j by linarith
  then have "(of_int j :: rat) \<le> of_int (k * int n + int n - 1)" by (simp only: of_int_le_iff)
  then have "of_int j / of_int (int n) \<le> (of_int (k * int n + int n - 1) :: rat) / of_int (int n)"
    using nr by (simp add: divide_right_mono)
  also have "\<dots> = of_int k + 1 - 1 / of_int (int n)" using nr by (simp add: field_simps)
  finally have hi: "x \<le> of_int k + 1 - 1 / of_int (int n)" unfolding x_def .
  have "of_int (int n) * x = (of_int j :: rat)" unfolding x_def using nr by simp
  moreover have "(of_int j :: rat) < of_int (2 ^ 53)" using assms(2) by (simp only: of_int_less_iff)
  ultimately have prod: "of_int (int n) * x < 2 ^ 53" by simp
  obtain v where v: "toDouble x = Finite v" "of_int k \<le> v" "v < of_int k + 1"
    using toDouble_between [OF k0 k53 lo hi npos prod] by blast
  have "\<lfloor>v\<rfloor> = k" using v(2,3) by (simp add: floor_unique)
  then have "Math_floor (toDouble x) = Finite (of_int k)" by (simp add: v(1) Math_floor_def)
  then show ?thesis using assms(3) by (simp add: x_def k_def)
qed

lemma share_sample: "Math_floor (divide_by_length (Finite 700) 3) = Finite 233"
  using floor_quotient_double [of 700 3] by simp

section \<open>Properties of the draw\<close>

subsection \<open>The number generator, the payout and the deletion\<close>

lemma deleteTickets_all: "deleteTickets ts ts = []"
  by (induction ts) (simp_all add: deleteTickets_def)

lemma Set_add_set: "set (Set_add numbers x) = insert x (set numbers)"
  by (auto simp: Set_add_def)

lemma Set_add_distinct: "distinct numbers \<Longrightarrow> distinct (Set_add numbers x)"
  by (simp add: Set_add_def)

lemma Set_add_length: "length (Set_add numbers x) \<le> Suc (length numbers)"
  by (simp add: Set_add_def)

lemma randomNumber_range:
  assumes "Math_random_result r"
  shows "\<exists>k. randomNumber numberRange_min numberRange_max r = Finite (of_int k) \<and> 1 \<le> k \<and> k \<le> 49"
proof -
  have r: "toDouble r = Finite r" "0 \<le> r" "r < 1"
    using assms by (simp_all add: Math_random_result_def)
  have "r \<le> 1 - 1 / 2 ^ 53" using r by (rule double_below_one)
  then obtain v where v: "toDouble (r * 49) = Finite v" "0 \<le> v" "v < 49"
    using toDouble_random_49 [OF r(2)] by blast
  define k where "k = \<lfloor>v\<rfloor> + 1"
  have k1: "1 \<le> k" using v(2) by (simp add: k_def)
  have "\<lfloor>v\<rfloor> < 49" using v(3) by (simp add: floor_less_iff)
  then have k49: "k \<le> 49" by (simp add: k_def)
  have "toDouble (of_int k) = Finite (of_int k)"
    using k1 k49 by (intro toDouble_of_int) simp_all
  then have "randomNumber numberRange_min numberRange_max r = Finite (of_int k)"
    by (simp add: randomNumber_def numberRange_min_def numberRange_max_def v(1) Math_floor_def k_def)
  then show ?thesis using k1 k49 by blast
qed

lemma loop_result:
  assumes "generateRandomNumbers_loop count mn mx rs numbers = Some ws"
    and "distinct numbers" and "length numbers \<le> count"
    and "\<forall>n\<in>set numbers. P n" and "\<forall>r\<in>set rs. P (randomNumber mn mx r)"
  shows "length ws = count \<and> distinct ws \<and> (\<forall>n\<in>set ws. P n)"
  using assms
proof (induction rs arbitrary: numbers)
  case Nil
  then show ?case by (simp split: if_splits)
next
  case (Cons r rs)
  show ?case
  proof (cases "length numbers < count")
    case True
    let ?n' = "Set_add numbers (randomNumber mn mx r)"
    have run: "generateRandomNumbers_loop count mn mx rs ?n' = Some ws"
      using Cons.prems(1) True by simp
    have len: "length ?n' \<le> count"
      using True Set_add_length [of numbers "randomNumber mn mx r"] by linarith
    have P: "\<forall>n\<in>set ?n'. P n"
      using Cons.prems(4,5) by (simp add: Set_add_set)
    show ?thesis
      using Cons.IH [OF run Set_add_distinct [OF Cons.prems(2)] len P] Cons.prems(5) by simp
  next
    case False
    then show ?thesis using Cons.prems by simp
  qed
qed

lemma loop_completes:
  assumes "distinct numbers"
    and "count \<le> card (randomNumber mn mx ` set rs \<union> set numbers)"
  shows "generateRandomNumbers_loop count mn mx rs numbers \<noteq> None"
  using assms
proof (induction rs arbitrary: numbers)
  case Nil
  then show ?case by (simp add: distinct_card)
next
  case (Cons r rs)
  show ?case
  proof (cases "length numbers < count")
    case True
    let ?n' = "Set_add numbers (randomNumber mn mx r)"
    have eq: "randomNumber mn mx ` set rs \<union> set ?n' = randomNumber mn mx ` set (r # rs) \<union> set numbers"
      by (auto simp: Set_add_set)
    have "generateRandomNumbers_loop count mn mx rs ?n' \<noteq> None"
      using Cons.IH [OF Set_add_distinct [OF Cons.prems(1)]] Cons.prems(2) eq by simp
    then show ?thesis using True by simp
  next
    case False
    then show ?thesis by simp
  qed
qed

lemma payWinners_ticketNumbers:
  "payWinners cs share (map (ticketNumbers_update f) ts) acc = payWinners cs share ts acc"
proof (induction ts arbitrary: acc)
  case Nil
  show ?case by simp
next
  case (Cons t ts)
  obtain w l where acc: "acc = (w, l)" by (cases acc)
  show ?case unfolding acc using Cons.IH by (simp split: option.splits)
qed

lemma getCharacter_id: "getCharacter p cs = Some c \<Longrightarrow> character_id c = p"
  by (auto simp: getCharacter_def find_Some_iff)

lemma payWinners_fold:
  "snd (payWinners cs share ts acc) =
     fold (\<lambda>ticket. add_bank (playerUUID ticket) share)
       (filter (\<lambda>ticket. getCharacter (playerUUID ticket) cs \<noteq> None) ts) (snd acc)"
proof (induction ts arbitrary: acc)
  case Nil
  show ?case by simp
next
  case (Cons t ts)
  obtain w l where acc: "acc = (w, l)" by (cases acc)
  show ?case
  proof (cases "getCharacter (playerUUID t) cs")
    case None
    then show ?thesis unfolding acc using Cons.IH by simp
  next
    case (Some c)
    then have "character_id c = playerUUID t" by (rule getCharacter_id)
    then show ?thesis unfolding acc using Cons.IH Some by simp
  qed
qed

lemma fold_add_bank_cash:
  "cash (fold (\<lambda>ticket. add_bank (playerUUID ticket) share) ts l) = cash l"
  by (induction ts arbitrary: l) (simp_all add: add_bank_def)

lemma fold_add_bank_bank:
  "bank (fold (\<lambda>ticket. add_bank (playerUUID ticket) share) ts l) p =
     ((\<lambda>b. plus_number b share) ^^ ticketsOf p ts) (bank l p)"
proof -
  define f where "f = (\<lambda>b. plus_number b share)"
  have step: "bank (add_bank q share l') p = (if q = p then f (bank l' p) else bank l' p)" for q l'
    by (simp add: add_bank_def f_def)
  have "bank (fold (\<lambda>ticket. add_bank (playerUUID ticket) share) ts l) p =
     (f ^^ ticketsOf p ts) (bank l p)"
  proof (induction ts arbitrary: l)
    case Nil
    show ?case by (simp add: ticketsOf_def)
  next
    case (Cons t ts)
    show ?case
    proof (cases "playerUUID t = p")
      case True
      have "ticketsOf p (t # ts) = Suc (ticketsOf p ts)" using True by (simp add: ticketsOf_def)
      then show ?thesis using Cons.IH [of "add_bank (playerUUID t) share l"] True
        by (simp add: step funpow_swap1)
    next
      case False
      have "ticketsOf p (t # ts) = ticketsOf p ts" using False by (simp add: ticketsOf_def)
      then show ?thesis using Cons.IH [of "add_bank (playerUUID t) share l"] False
        by (simp add: step)
    qed
  qed
  then show ?thesis unfolding f_def .
qed

lemma ticketsOf_resolved:
  "ticketsOf p (filter (\<lambda>ticket. getCharacter (playerUUID ticket) cs \<noteq> None) ts) =
     (if getCharacter p cs = None then 0 else ticketsOf p ts)"
proof -
  have "filter (\<lambda>t. playerUUID t = p)
          (filter (\<lambda>ticket. getCharacter (playerUUID ticket) cs \<noteq> None) ts) =
        (if getCharacter p cs = None then [] else filter (\<lambda>t. playerUUID t = p) ts)"
    by (induction ts) auto
  then show ?thesis by (simp add: ticketsOf_def)
qed

lemma payWinners_cash: "cash (snd (payWinners cs share ts acc)) = cash (snd acc)"
  by (simp add: payWinners_fold fold_add_bank_cash)

lemma payWinners_bank:
  "bank (snd (payWinners cs share ts acc)) p =
     (if getCharacter p cs = None then bank (snd acc) p
      else ((\<lambda>b. plus_number b share) ^^ ticketsOf p ts) (bank (snd acc) p))"
  unfolding payWinners_fold fold_add_bank_bank ticketsOf_resolved by simp

lemma sample_generate:
  "generateRandomNumbers 6 numberRange_min numberRange_max sample_random
     = Some [Finite 1, Finite 2, Finite 25, Finite 37, Finite 49, Finite 16]"
  by code_simp

subsection \<open>The effect of a draw\<close>

lemma draw_effect:
  assumes "lottery s = Some ls" and "drawWinningNumbers cfg now rs s = Some (ws, s')"
  shows "generateRandomNumbers 6 numberRange_min numberRange_max rs = Some ws"
    and "tickets s' = []"
    and "lottery s' = Some (ls\<lparr>winningNumbers := ws, lastDrawDate := now,
           jackpot := (if tickets s = [] then jackpot ls else initialJackpot cfg)\<rparr>)"
    and "currency s' = (if tickets s = [] then currency s
           else snd (payWinners (characters s) (Math_floor (divide_by_length (jackpot ls) (length (tickets s)))) (tickets s)
                  (''No Winner today.'', currency s)))"
proof -
  obtain ws0 where g: "generateRandomNumbers 6 numberRange_min numberRange_max rs = Some ws0"
    using assms by (cases "generateRandomNumbers 6 numberRange_min numberRange_max rs")
      (simp_all add: drawWinningNumbers_def)
  show "generateRandomNumbers 6 numberRange_min numberRange_max rs = Some ws"
    and "tickets s' = []"
    and "lottery s' = Some (ls\<lparr>winningNumbers := ws, lastDrawDate := now,
           jackpot := (if tickets s = [] then jackpot ls else initialJackpot cfg)\<rparr>)"
    and "currency s' = (if tickets s = [] then currency s
           else snd (payWinners (characters s) (Math_floor (divide_by_length (jackpot ls) (length (tickets s)))) (tickets s)
                  (''No Winner today.'', currency s)))"
    using assms g
    by (auto simp: drawWinningNumbers_def payout_def Let_def deleteTickets_all
      split: prod.splits if_splits)
qed

lemma draw_completes:
  assumes "6 \<le> card (randomNumber numberRange_min numberRange_max ` set rs)"
  shows "drawWinningNumbers cfg now rs s \<noteq> None"
proof -
  have "generateRandomNumbers 6 numberRange_min numberRange_max rs \<noteq> None"
    unfolding generateRandomNumbers_def using loop_completes [of "[]" 6 _ _ rs] assms by simp
  then show ?thesis
    by (auto simp: drawWinningNumbers_def Let_def split: option.splits prod.splits)
qed

lemma sample_draw:
  "drawWinningNumbers cfg now sample_random s =
     Some (fst (the (drawWinningNumbers cfg now sample_random s)),
           snd (the (drawWinningNumbers cfg now sample_random s)))"
proof -
  have "generateRandomNumbers 6 numberRange_min numberRange_max sample_random \<noteq> None"
    by (simp add: sample_generate)
  then have "drawWinningNumbers cfg now sample_random s \<noteq> None"
    by (auto simp: drawWinningNumbers_def Let_def split: option.splits prod.splits)
  then show ?thesis by auto
qed

lemma sample_random_card:
  "6 \<le> card (randomNumber numberRange_min numberRange_max ` set sample_random)"
  by code_simp

lemma sample_random_range: "\<forall>r\<in>set sample_random. Math_random_result r"
proof -
  have "list_all Math_random_result sample_random" by code_simp
  then show ?thesis by (simp add: list_all_iff)
qed

text \<open>
  Claim C5, as amended. When a lottery document exists, a draw that completes leaves
  the ticket collection empty, whether or not there were tickets and whether or not
  the payout ran. When no lottery document exists the draw does nothing: it returns the
  empty list and the store, tickets included, is as it was.
\<close>

theorem draw_empties_tickets:
  "(lottery s \<noteq> None \<longrightarrow> drawWinningNumbers cfg now rs s = Some (ws, s') \<longrightarrow> tickets s' = [])
   \<and> (lottery s = None \<longrightarrow> drawWinningNumbers cfg now rs s = Some ([], s))"
proof (intro conjI impI)
  assume "lottery s \<noteq> None" and d: "drawWinningNumbers cfg now rs s = Some (ws, s')"
  then obtain ls where "lottery s = Some ls" by auto
  then show "tickets s' = []" using d by (rule draw_effect(2))
next
  assume "lottery s = None"
  then show "drawWinningNumbers cfg now rs s = Some ([], s)"
    by (simp add: drawWinningNumbers_def)
qed

theorem draw_empties_tickets_witness:
  "lottery (sample_store 100 600 [sample_ticket ''t1'' ''A'', sample_ticket ''t2'' ''B'']) \<noteq> None
   \<and> tickets (snd (sample_drawn (sample_store 100 600 [sample_ticket ''t1'' ''A'', sample_ticket ''t2'' ''B'']))) = []
   \<and> tickets (snd (sample_drawn (sample_store 100 600 []))) = []"
  using
    draw_empties_tickets [of "sample_store 100 600 [sample_ticket ''t1'' ''A'', sample_ticket ''t2'' ''B'']"
      sample_config 0 sample_random
      "fst (sample_drawn (sample_store 100 600 [sample_ticket ''t1'' ''A'', sample_ticket ''t2'' ''B'']))"
      "snd (sample_drawn (sample_store 100 600 [sample_ticket ''t1'' ''A'', sample_ticket ''t2'' ''B'']))"]
    draw_empties_tickets [of "sample_store 100 600 []" sample_config 0 sample_random
      "fst (sample_drawn (sample_store 100 600 []))"
      "snd (sample_drawn (sample_store 100 600 []))"]
    sample_draw [of sample_config 0 "sample_store 100 600 [sample_ticket ''t1'' ''A'', sample_ticket ''t2'' ''B'']"]
    sample_draw [of sample_config 0 "sample_store 100 600 []"]
  by (simp add: sample_store_def)

text \<open>
  Claim C5 as stated fails: without a lottery document the draw returns and the ticket
  of \<open>A\<close> is still in the collection.
\<close>

theorem draw_keeps_tickets_without_lottery:
  "drawWinningNumbers sample_config 0 sample_random (sample_store_no_lottery [sample_ticket ''t1'' ''A''])
     = Some ([], sample_store_no_lottery [sample_ticket ''t1'' ''A''])
   \<and> tickets (sample_store_no_lottery [sample_ticket ''t1'' ''A'']) \<noteq> []"
  by (simp add: drawWinningNumbers_def sample_store_no_lottery_def)

text \<open>
  Claim C1, as amended. After a completed draw with a lottery document, the stored
  jackpot is the configured initial jackpot when at least one ticket existed at draw
  time, and the jackpot it was before the draw when there was none.
\<close>

theorem draw_jackpot:
  assumes "lottery s = Some ls" and "drawWinningNumbers cfg now rs s = Some (ws, s')"
  shows "map_option jackpot (lottery s') =
           Some (if tickets s = [] then jackpot ls else initialJackpot cfg)"
  using draw_effect(3) [OF assms] by simp

theorem draw_jackpot_witness:
  "map_option jackpot (lottery (snd (sample_drawn (sample_store 100 600 sample_tickets)))) = Some (Finite 500)
   \<and> map_option jackpot (lottery (snd (sample_drawn (sample_store 100 700 [])))) = Some (Finite 700)"
  using
    draw_jackpot [where s = "sample_store 100 600 sample_tickets"
      and ls = "the (lottery (sample_store 100 600 sample_tickets))"
      and cfg = sample_config and now = 0 and rs = sample_random
      and ws = "fst (sample_drawn (sample_store 100 600 sample_tickets))"
      and s' = "snd (sample_drawn (sample_store 100 600 sample_tickets))"]
    draw_jackpot [where s = "sample_store 100 700 []"
      and ls = "the (lottery (sample_store 100 700 []))"
      and cfg = sample_config and now = 0 and rs = sample_random
      and ws = "fst (sample_drawn (sample_store 100 700 []))"
      and s' = "snd (sample_drawn (sample_store 100 700 []))"]
    sample_draw [of sample_config 0 "sample_store 100 600 sample_tickets"]
    sample_draw [of sample_config 0 "sample_store 100 700 []"]
  by (simp add: sample_store_def sample_config_def)

text \<open>
  Claim C1 as stated fails for a draw without tickets: the jackpot of 700 is still 700
  after the draw, while the configured initial jackpot is 500.
\<close>

theorem draw_without_tickets_keeps_jackpot:
  "lottery (sample_store 100 700 []) \<noteq> None
   \<and> drawWinningNumbers sample_config 0 sample_random (sample_store 100 700 []) \<noteq> None
   \<and> map_option jackpot (lottery (snd (sample_drawn (sample_store 100 700 [])))) = Some (Finite 700)
   \<and> initialJackpot sample_config = Finite 500"
proof -
  have "generateRandomNumbers 6 numberRange_min numberRange_max sample_random
          = Some [Finite 1, Finite 2, Finite 25, Finite 37, Finite 49, Finite 16]"
    by (rule sample_generate)
  then show ?thesis
    by (simp add: drawWinningNumbers_def payout_def sample_store_def sample_config_def Let_def)
qed

text \<open>
  Claim C3, as amended. In a draw with a lottery document holding jackpot \<open>J\<close> and
  with \<open>N \<ge> 1\<close> ticket records, which completes as soon as \<open>Math.random()\<close> has led to
  six different numbers, every ticket record whose owner resolves to a character
  causes one credit of \<open>Math.floor(J / N)\<close> to that character's bank balance, and
  nothing else touches a balance: the holder of one record is credited once, the
  holder of \<open>k\<close> records \<open>k\<close> times. The jackpot is the configured initial jackpot
  afterwards. The payout looks at no numbers: a draw over the same tickets with any
  other numbers on them, at any time and with any winning numbers, leaves the same
  balances. \<open>Math.floor(J / N)\<close> is the floor of the double quotient; for an integer
  \<open>J\<close> from 0 to below \<open>2 ^ 53\<close> it is \<open>J div N\<close>.
\<close>

theorem draw_pays_every_ticket:
  assumes "lottery s = Some ls" and "tickets s \<noteq> []"
  shows
    "(6 \<le> card (randomNumber numberRange_min numberRange_max ` set rs)
        \<longrightarrow> drawWinningNumbers cfg now rs s \<noteq> None)
     \<and> (drawWinningNumbers cfg now rs s = Some (ws, s') \<longrightarrow>
          currency s' =
            fold (\<lambda>ticket. add_bank (playerUUID ticket)
                    (Math_floor (divide_by_length (jackpot ls) (length (tickets s)))))
              (filter (\<lambda>ticket. getCharacter (playerUUID ticket) (characters s) \<noteq> None)
                 (tickets s))
              (currency s)
        \<and> (\<forall>p. bank (currency s') p =
              (if getCharacter p (characters s) = None then bank (currency s) p
               else ((\<lambda>b. plus_number b
                        (Math_floor (divide_by_length (jackpot ls) (length (tickets s)))))
                      ^^ ticketsOf p (tickets s))
                      (bank (currency s) p)))
        \<and> cash (currency s') = cash (currency s)
        \<and> map_option jackpot (lottery s') = Some (initialJackpot cfg)
        \<and> (\<forall>f now' rs' ws' s''.
              drawWinningNumbers cfg now' rs' (s\<lparr>tickets := map (ticketNumbers_update f) (tickets s)\<rparr>)
                = Some (ws', s'') \<longrightarrow> currency s'' = currency s'))
     \<and> (\<forall>j. jackpot ls = Finite (of_int j) \<and> 0 \<le> j \<and> j < 2 ^ 53 \<longrightarrow>
          Math_floor (divide_by_length (jackpot ls) (length (tickets s)))
            = Finite (of_int (j div int (length (tickets s)))))"
proof -
  let ?share = "Math_floor (divide_by_length (jackpot ls) (length (tickets s)))"
  let ?start = "(''No Winner today.'', currency s)"
  let ?resolved = "filter (\<lambda>ticket. getCharacter (playerUUID ticket) (characters s) \<noteq> None) (tickets s)"
  have completes: "6 \<le> card (randomNumber numberRange_min numberRange_max ` set rs)
        \<longrightarrow> drawWinningNumbers cfg now rs s \<noteq> None"
    using draw_completes by blast
  have paid: "currency s' = fold (\<lambda>ticket. add_bank (playerUUID ticket) ?share) ?resolved (currency s)
        \<and> (\<forall>p. bank (currency s') p =
              (if getCharacter p (characters s) = None then bank (currency s) p
               else ((\<lambda>b. plus_number b ?share) ^^ ticketsOf p (tickets s)) (bank (currency s) p)))
        \<and> cash (currency s') = cash (currency s)
        \<and> map_option jackpot (lottery s') = Some (initialJackpot cfg)
        \<and> (\<forall>f now' rs' ws' s''.
              drawWinningNumbers cfg now' rs' (s\<lparr>tickets := map (ticketNumbers_update f) (tickets s)\<rparr>)
                = Some (ws', s'') \<longrightarrow> currency s'' = currency s')"
    if d: "drawWinningNumbers cfg now rs s = Some (ws, s')"
  proof -
    have cur: "currency s' = snd (payWinners (characters s) ?share (tickets s) ?start)"
      using draw_effect(4) [OF assms(1) d] assms(2) by simp
    have f: "currency s' = fold (\<lambda>ticket. add_bank (playerUUID ticket) ?share) ?resolved (currency s)"
      unfolding cur by (simp add: payWinners_fold)
    have b: "\<forall>p. bank (currency s') p =
              (if getCharacter p (characters s) = None then bank (currency s) p
               else ((\<lambda>b. plus_number b ?share) ^^ ticketsOf p (tickets s)) (bank (currency s) p))"
      unfolding cur by (simp add: payWinners_bank)
    have c: "cash (currency s') = cash (currency s)"
      unfolding cur by (simp add: payWinners_cash)
    have j: "map_option jackpot (lottery s') = Some (initialJackpot cfg)"
      using draw_effect(3) [OF assms(1) d] assms(2) by simp
    have i: "currency s'' = currency s'"
      if d': "drawWinningNumbers cfg now' rs' (s\<lparr>tickets := map (ticketNumbers_update f) (tickets s)\<rparr>)
            = Some (ws', s'')" for f now' rs' ws' s''
    proof -
      let ?s = "s\<lparr>tickets := map (ticketNumbers_update f) (tickets s)\<rparr>"
      have l: "lottery ?s = Some ls" using assms(1) by simp
      have "currency s'' = snd (payWinners (characters s) ?share
              (map (ticketNumbers_update f) (tickets s)) ?start)"
        using draw_effect(4) [OF l d'] assms(2) by simp
      then show ?thesis unfolding cur by (simp add: payWinners_ticketNumbers)
    qed
    show ?thesis using f b c j i by blast
  qed
  have safe: "\<forall>j. jackpot ls = Finite (of_int j) \<and> 0 \<le> j \<and> j < 2 ^ 53 \<longrightarrow>
          ?share = Finite (of_int (j div int (length (tickets s))))"
  proof (intro allI impI)
    fix j assume a: "jackpot ls = Finite (of_int j) \<and> 0 \<le> j \<and> j < 2 ^ 53"
    have n: "0 < length (tickets s)" using assms(2) by simp
    show "?share = Finite (of_int (j div int (length (tickets s))))"
      using a floor_quotient_double [OF _ _ n, of j] by simp
  qed
  show ?thesis using completes paid safe by blast
qed

theorem draw_pays_every_ticket_witness:
  "drawWinningNumbers sample_config 0 sample_random (sample_store 100 600 sample_tickets) \<noteq> None
   \<and> Math_floor (divide_by_length (Finite 600) (length sample_tickets))
       = Finite (of_int (600 div int (length sample_tickets)))
   \<and> bank (currency (snd (sample_drawn (sample_store 100 600 sample_tickets)))) ''A'' = Finite 200
   \<and> bank (currency (snd (sample_drawn (sample_store 100 600 sample_tickets)))) ''B'' = Finite 200
   \<and> bank (currency (snd (sample_drawn (sample_store 100 600 sample_tickets)))) ''C'' = Finite 0
   \<and> cash (currency (snd (sample_drawn (sample_store 100 600 sample_tickets)))) ''A'' = Finite 150
   \<and> map_option jackpot (lottery (snd (sample_drawn (sample_store 100 600 sample_tickets)))) = Some (Finite 500)"
proof -
  have l: "lottery (sample_store 100 600 sample_tickets) =
      Some \<lparr>ticketPrice = Finite 100, jackpot = Finite 600, lastDrawDate = 0, winningNumbers = []\<rparr>"
    by (simp add: sample_store_def)
  have t: "tickets (sample_store 100 600 sample_tickets) \<noteq> []" by (simp add: sample_store_def)
  note w = draw_pays_every_ticket [OF l t, where cfg = sample_config and now = 0
      and rs = sample_random and ws = "fst (sample_drawn (sample_store 100 600 sample_tickets))" and s' = "snd (sample_drawn (sample_store 100 600 sample_tickets))"]
  have c: "drawWinningNumbers sample_config 0 sample_random (sample_store 100 600 sample_tickets) \<noteq> None"
    using w [THEN conjunct1] sample_random_card by simp
  have d: "drawWinningNumbers sample_config 0 sample_random (sample_store 100 600 sample_tickets)
      = Some (fst (sample_drawn (sample_store 100 600 sample_tickets)), snd (sample_drawn (sample_store 100 600 sample_tickets)))"
    using c by auto
  note paid = w [THEN conjunct2, THEN conjunct1, THEN mp, OF d]
  note credits = paid [THEN conjunct2, THEN conjunct1]
  note evaluate = sample_store_def sample_ledger_def sample_characters_def sample_ticket_def
    sample_config_def getCharacter_def ticketsOf_def Math_floor_def toDouble_numeral
  have share: "Math_floor (divide_by_length (Finite 600) (length sample_tickets))
       = Finite (of_int (600 div int (length sample_tickets)))"
    using w [THEN conjunct2, THEN conjunct2, THEN spec, of 600] by (simp add: sample_store_def)
  have a: "bank (currency (snd (sample_drawn (sample_store 100 600 sample_tickets)))) ''A'' = Finite 200"
    using credits [THEN spec, of "''A''"] by (simp add: evaluate)
  have b: "bank (currency (snd (sample_drawn (sample_store 100 600 sample_tickets)))) ''B'' = Finite 200"
    using credits [THEN spec, of "''B''"] by (simp add: evaluate)
  have n: "bank (currency (snd (sample_drawn (sample_store 100 600 sample_tickets)))) ''C'' = Finite 0"
    using credits [THEN spec, of "''C''"] by (simp add: evaluate)
  have cash: "cash (currency (snd (sample_drawn (sample_store 100 600 sample_tickets)))) ''A'' = Finite 150"
    using paid [THEN conjunct2, THEN conjunct2, THEN conjunct1] by (simp add: evaluate)
  have pot: "map_option jackpot (lottery (snd (sample_drawn (sample_store 100 600 sample_tickets)))) = Some (Finite 500)"
    using paid [THEN conjunct2, THEN conjunct2, THEN conjunct2, THEN conjunct1]
    by (simp add: evaluate)
  show ?thesis
    using c share a b n cash pot by simp
qed

text \<open>
  Claim C3 as stated fails for an identity with two ticket records: with a jackpot of
  700 and three records, two of them of \<open>A\<close>, the share is 233 and \<open>A\<close> is credited
  466. It fails as well where the double quotient is not the exact one: a jackpot of
  13510798882111490 split in three gives a share of 4503599627370497, one more than
  the floor of the exact quotient.
\<close>

theorem draw_pays_two_tickets_twice:
  "lottery (sample_store 100 700 sample_tickets_twice) \<noteq> None
   \<and> drawWinningNumbers sample_config 0 sample_random (sample_store 100 700 sample_tickets_twice) \<noteq> None
   \<and> length (tickets (sample_store 100 700 sample_tickets_twice)) = 3
   \<and> jackpot (the (lottery (sample_store 100 700 sample_tickets_twice))) = Finite 700
   \<and> Math_floor (divide_by_length (Finite 700) 3) = Finite 233
   \<and> bank (currency (sample_store 100 700 sample_tickets_twice)) ''A'' = Finite 0
   \<and> bank (currency (snd (sample_drawn (sample_store 100 700 sample_tickets_twice)))) ''A'' = Finite 466
   \<and> bank (currency (snd (sample_drawn (sample_store 100 700 sample_tickets_twice)))) ''B'' = Finite 233
   \<and> Math_floor (divide_by_length (Finite 13510798882111490) 3) = Finite 4503599627370497
   \<and> (13510798882111490 :: int) div 3 = 4503599627370496"
proof -
  have g: "generateRandomNumbers 6 numberRange_min numberRange_max sample_random
          = Some [Finite 1, Finite 2, Finite 25, Finite 37, Finite 49, Finite 16]"
    by (rule sample_generate)
  have some: "drawWinningNumbers sample_config 0 sample_random (sample_store 100 700 sample_tickets_twice) \<noteq> None"
    using g by (simp add: drawWinningNumbers_def payout_def sample_store_def Let_def
        split: prod.splits)
  have share: "Math_floor (divide_by_length (Finite 700) 3) = Finite 233"
    by code_simp
  have a: "bank (currency (snd (sample_drawn (sample_store 100 700 sample_tickets_twice)))) ''A'' = Finite 466"
    by code_simp
  have b: "bank (currency (snd (sample_drawn (sample_store 100 700 sample_tickets_twice)))) ''B'' = Finite 233"
    by code_simp
  have big: "Math_floor (divide_by_length (Finite 13510798882111490) 3) = Finite 4503599627370497"
    by code_simp
  have exact: "(13510798882111490 :: int) div 3 = 4503599627370496"
    by simp
  show ?thesis
    using some share a b big exact by (simp add: sample_store_def sample_ledger_def)
qed

text \<open>
  Claim C4. A draw with a lottery document that completes returns six pairwise
  distinct numbers, each an integer from 1 to 49, and the lottery document holds the
  same six afterwards; \<open>Math.random()\<close> answers with doubles in \<open>[0,1)\<close>. The draw
  does complete as soon as the answers of \<open>Math.random()\<close> lead to six different
  numbers.
\<close>

theorem draw_winning_numbers:
  "(lottery s = Some ls \<and> (\<forall>r\<in>set rs. Math_random_result r)
      \<and> drawWinningNumbers cfg now rs s = Some (ws, s')
    \<longrightarrow> length ws = 6 \<and> distinct ws
        \<and> (\<forall>n\<in>set ws. \<exists>k. n = Finite (of_int k) \<and> 1 \<le> k \<and> k \<le> 49)
        \<and> map_option winningNumbers (lottery s') = Some ws)
   \<and> (6 \<le> card (randomNumber numberRange_min numberRange_max ` set rs)
    \<longrightarrow> drawWinningNumbers cfg now rs s \<noteq> None)"
proof (rule conjI)
  show "lottery s = Some ls \<and> (\<forall>r\<in>set rs. Math_random_result r)
      \<and> drawWinningNumbers cfg now rs s = Some (ws, s')
    \<longrightarrow> length ws = 6 \<and> distinct ws
        \<and> (\<forall>n\<in>set ws. \<exists>k. n = Finite (of_int k) \<and> 1 \<le> k \<and> k \<le> 49)
        \<and> map_option winningNumbers (lottery s') = Some ws"
  proof (rule impI)
    assume a: "lottery s = Some ls \<and> (\<forall>r\<in>set rs. Math_random_result r)
        \<and> drawWinningNumbers cfg now rs s = Some (ws, s')"
    then have l: "lottery s = Some ls" and d: "drawWinningNumbers cfg now rs s = Some (ws, s')"
      and r: "\<forall>r\<in>set rs. Math_random_result r" by simp_all
    have g: "generateRandomNumbers_loop 6 numberRange_min numberRange_max rs [] = Some ws"
      using draw_effect(1) [OF l d] by (simp add: generateRandomNumbers_def)
    have rng: "\<forall>r\<in>set rs. \<exists>k. randomNumber numberRange_min numberRange_max r = Finite (of_int k)
            \<and> 1 \<le> k \<and> k \<le> 49"
      using r randomNumber_range by blast
    have six: "length ws = 6 \<and> distinct ws
        \<and> (\<forall>n\<in>set ws. \<exists>k. n = Finite (of_int k) \<and> 1 \<le> k \<and> k \<le> 49)"
      by (rule loop_result [OF g _ _ _ rng]) simp_all
    have kept: "map_option winningNumbers (lottery s') = Some ws"
      using draw_effect(3) [OF l d] by simp
    show "length ws = 6 \<and> distinct ws
          \<and> (\<forall>n\<in>set ws. \<exists>k. n = Finite (of_int k) \<and> 1 \<le> k \<and> k \<le> 49)
          \<and> map_option winningNumbers (lottery s') = Some ws"
      using six kept by simp
  qed
next
  show "6 \<le> card (randomNumber numberRange_min numberRange_max ` set rs)
    \<longrightarrow> drawWinningNumbers cfg now rs s \<noteq> None"
    using draw_completes by blast
qed

theorem draw_winning_numbers_witness:
  "6 \<le> card (randomNumber numberRange_min numberRange_max ` set sample_random)
   \<and> drawWinningNumbers sample_config 0 sample_random (sample_store 100 600 sample_tickets) \<noteq> None
   \<and> fst (sample_drawn (sample_store 100 600 sample_tickets))
       = [Finite 1, Finite 2, Finite 25, Finite 37, Finite 49, Finite 16]
   \<and> length (fst (sample_drawn (sample_store 100 600 sample_tickets))) = 6
   \<and> distinct (fst (sample_drawn (sample_store 100 600 sample_tickets)))
   \<and> map_option winningNumbers (lottery (snd (sample_drawn (sample_store 100 600 sample_tickets))))
       = Some (fst (sample_drawn (sample_store 100 600 sample_tickets)))"
proof -
  have w: "fst (sample_drawn (sample_store 100 600 sample_tickets))
       = [Finite 1, Finite 2, Finite 25, Finite 37, Finite 49, Finite 16]"
    using draw_effect(1) [OF _ sample_draw [of sample_config 0 "sample_store 100 600 sample_tickets"]] sample_generate
    by (simp add: sample_store_def)
  show ?thesis
    using
      draw_winning_numbers [where s = "sample_store 100 600 sample_tickets"
      and ls = "the (lottery (sample_store 100 600 sample_tickets))"
      and cfg = sample_config and now = 0 and rs = sample_random
      and ws = "fst (sample_drawn (sample_store 100 600 sample_tickets))"
      and s' = "snd (sample_drawn (sample_store 100 600 sample_tickets))"]
      sample_draw [of sample_config 0 "sample_store 100 600 sample_tickets"]
      sample_random_range sample_random_card w
    by (simp add: sample_store_def)
qed

section \<open>Properties of the ticket validator\<close>

lemma number_in_range:
  "(\<not> isNaN n \<and> \<not> less_number n (Finite 1) \<and> \<not> less_number (Finite 49) n)
     \<longleftrightarrow> (\<exists>q. n = Finite q \<and> 1 \<le> q \<and> q \<le> 49)"
  by (cases n) (auto simp: isNaN_def)

lemma parse_sample:
  "parseTicketNumbers ''1 2 3 4 5 6'' =
     Some [Finite 1, Finite 2, Finite 3, Finite 4, Finite 5, Finite 6]"
  by code_simp

lemma parse_five_tokens: "parseTicketNumbers ''1 2 3 4 5'' = None"
  by code_simp

lemma parse_two_spaces: "parseTicketNumbers ''1  2 3 4 5 6'' = None"
  by code_simp

lemma parse_out_of_range: "parseTicketNumbers ''1 2 3 4 5 50'' = None"
  by code_simp

lemma parse_not_a_number: "parseTicketNumbers ''1 2 3 4 5 six'' = None"
  by code_simp

lemma three_halves_not_integer: "(3 / 2 :: rat) \<notin> \<int>"
proof
  assume "(3 / 2 :: rat) \<in> \<int>"
  then obtain k :: int where "(3 / 2 :: rat) = of_int k" by (auto elim: Ints_cases)
  then have "(of_int (2 * k) :: rat) = of_int 3" by simp
  then have "2 * k = 3" by (simp only: of_int_eq_iff)
  then show False by presburger
qed

lemma parseTicketNumbers_cases:
  "parseTicketNumbers s =
     (if length (split_space s) = 6
         \<and> (\<forall>t\<in>set (split_space s). \<exists>q. Number t = Finite q \<and> 1 \<le> q \<and> q \<le> 49)
      then Some (map Number (split_space s)) else None)"
proof -
  let ?ns = "map Number (split_space s)"
  have "(\<not> list_ex isNaN ?ns \<and> \<not> list_ex (\<lambda>n. less_number n (Finite 1) \<or> less_number (Finite 49) n) ?ns)
      \<longleftrightarrow> (\<forall>n\<in>set ?ns. \<not> isNaN n \<and> \<not> less_number n (Finite 1) \<and> \<not> less_number (Finite 49) n)"
    by (auto simp: list_ex_iff)
  also have "\<dots> \<longleftrightarrow> (\<forall>n\<in>set ?ns. \<exists>q. n = Finite q \<and> 1 \<le> q \<and> q \<le> 49)"
    by (simp only: number_in_range)
  finally have ok: "(\<not> list_ex isNaN ?ns \<and> \<not> list_ex (\<lambda>n. less_number n (Finite 1) \<or> less_number (Finite 49) n) ?ns)
      \<longleftrightarrow> (\<forall>t\<in>set (split_space s). \<exists>q. Number t = Finite q \<and> 1 \<le> q \<and> q \<le> 49)"
    by simp
  show ?thesis
    unfolding parseTicketNumbers_def Let_def using ok by auto
qed

subsection \<open>Pieces that are plain decimal integers\<close>

lemma digitValue_decimal:
  assumes "digitValue 10 c = Some d"
  shows "48 \<le> (of_char c :: int)" and "(of_char c :: int) \<le> 57" and "0 \<le> d"
  using assms by (auto simp: digitValue_def Let_def split: if_splits option.splits)

lemma decimal_digit_plain:
  assumes "digitValue 10 c = Some d"
  shows "\<not> isStrWhiteSpaceChar c" and "\<not> isExponentIndicator c" and "c \<noteq> CHR ''.''"
    and "c \<noteq> CHR ''+''" and "c \<noteq> CHR ''-''" and "c \<noteq> CHR ''I''"
    and "c \<notin> {CHR ''b'', CHR ''B'', CHR ''o'', CHR ''O'', CHR ''x'', CHR ''X''}"
  using digitValue_decimal(1,2) [OF assms]
  by (auto simp: isStrWhiteSpaceChar_def isExponentIndicator_def)

lemma digitsFrom_chars:
  assumes "digitsFrom 10 acc s = Some n"
  shows "\<forall>c\<in>set s. \<exists>d. digitValue 10 c = Some d"
  using assms by (induction s arbitrary: acc) (auto split: option.splits)

lemma digitsFrom_nonneg:
  assumes "digitsFrom 10 acc s = Some n" and "0 \<le> acc"
  shows "0 \<le> n"
  using assms
proof (induction s arbitrary: acc)
  case Nil
  then show ?case by simp
next
  case (Cons c s)
  then obtain d where d: "digitValue 10 c = Some d" and r: "digitsFrom 10 (acc * 10 + d) s = Some n"
    by (auto split: option.splits)
  have "0 \<le> acc * 10 + d" using Cons.prems(2) digitValue_decimal(3) [OF d] by simp
  then show ?case using Cons.IH [OF r] by simp
qed

lemma Number_digits:
  assumes "digits 10 s = Some n" and "n < 2 ^ 53"
  shows "Number s = Finite (of_int n)"
proof -
  have ne: "s \<noteq> []" and df: "digitsFrom 10 0 s = Some n"
    using assms(1) by (auto simp: digits_def split: if_splits)
  have all: "\<forall>c\<in>set s. \<exists>d. digitValue 10 c = Some d" using df by (rule digitsFrom_chars)
  have n0: "0 \<le> n" using df by (rule digitsFrom_nonneg) simp
  obtain c0 s0 where s: "s = c0 # s0" using ne by (cases s) auto
  obtain d0 where d0: "digitValue 10 c0 = Some d0" using all s by auto
  have "last s \<in> set s" using ne by simp
  then obtain dl where dl: "digitValue 10 (last s) = Some dl" using all by blast
  have "dropWhile isStrWhiteSpaceChar s = s"
    using decimal_digit_plain(1) [OF d0] by (simp add: s)
  moreover have "dropWhile isStrWhiteSpaceChar (rev s) = rev s"
  proof -
    have "hd (rev s) = last s" using ne by (simp add: hd_rev)
    then have "\<not> isStrWhiteSpaceChar (hd (rev s))"
      using decimal_digit_plain(1) [OF dl] by simp
    moreover have "rev s \<noteq> []" using ne by simp
    ultimately show ?thesis by (cases "rev s") simp_all
  qed
  ultimately have trim: "trimString s = s" by (simp add: trimString_def)
  have pre: "prefixRadix s = None"
  proof (cases s0)
    case Nil
    then show ?thesis by (simp add: prefixRadix_def s)
  next
    case (Cons c1 s1)
    then obtain d1 where d1: "digitValue 10 c1 = Some d1" using all s by auto
    have "c1 \<notin> {CHR ''b'', CHR ''B'', CHR ''o'', CHR ''O'', CHR ''x'', CHR ''X''}"
      using d1 by (rule decimal_digit_plain(7))
    then show ?thesis by (simp add: prefixRadix_def s Cons)
  qed
  have plain: "\<not> isExponentIndicator c \<and> c \<noteq> CHR ''.''" if c: "c \<in> set s" for c
  proof -
    obtain d where d: "digitValue 10 c = Some d" using bspec [OF all c] by auto
    show ?thesis using decimal_digit_plain(2,3) [OF d] by simp
  qed
  have noexp: "takeWhile (\<lambda>c. \<not> isExponentIndicator c) s = s"
    "dropWhile (\<lambda>c. \<not> isExponentIndicator c) s = []"
    using plain by (simp_all add: takeWhile_eq_all_conv dropWhile_eq_Nil_conv)
  have nodot: "takeWhile (\<lambda>c. c \<noteq> CHR ''.'') s = s" "dropWhile (\<lambda>c. c \<noteq> CHR ''.'') s = []"
    using plain by (simp_all add: takeWhile_eq_all_conv dropWhile_eq_Nil_conv)
  have mant: "decimalMantissa s = Some (of_int n)"
    by (simp add: decimalMantissa_def nodot assms(1) Let_def)
  have uns: "unsignedDecimal s = Some (of_int n)"
    by (simp add: unsignedDecimal_def noexp mant Let_def)
  have "strDecimalLiteral s = toDouble (of_int n)"
    using decimal_digit_plain(4,5,6) [OF d0]
    by (simp add: strDecimalLiteral_def Let_def s uns [unfolded s])
  then have "Number s = toDouble (of_int n)"
    using ne by (simp add: Number_def trim pre Let_def)
  then show ?thesis using toDouble_of_int [OF n0 assms(2)] by simp
qed

lemma parseTicketNumbers_integers:
  assumes "length (split_space s) = 6"
    and "\<forall>t\<in>set (split_space s). \<exists>n. digits 10 t = Some n \<and> 1 \<le> n \<and> n \<le> 49"
  shows "parseTicketNumbers s =
           Some (map (\<lambda>t. Finite (of_int (the (digits 10 t)))) (split_space s))"
proof -
  have num: "Number t = Finite (of_int (the (digits 10 t)))" if t: "t \<in> set (split_space s)" for t
  proof -
    obtain n where n: "digits 10 t = Some n" "1 \<le> n" "n \<le> 49"
      using bspec [OF assms(2) t] by auto
    then have "n < 2 ^ 53" by simp
    then show ?thesis using Number_digits [OF n(1)] n(1) by simp
  qed
  have ok: "\<forall>t\<in>set (split_space s). \<exists>q. Number t = Finite q \<and> 1 \<le> q \<and> q \<le> 49"
  proof
    fix t assume t: "t \<in> set (split_space s)"
    obtain n where n: "digits 10 t = Some n" "1 \<le> n" "n \<le> 49" using assms(2) t by blast
    have "Number t = Finite (of_int n)" using num [OF t] n(1) by simp
    moreover have "(1::rat) \<le> of_int n" "(of_int n :: rat) \<le> 49" using n(2,3) by simp_all
    ultimately show "\<exists>q. Number t = Finite q \<and> 1 \<le> q \<and> q \<le> 49" by blast
  qed
  have "map Number (split_space s) = map (\<lambda>t. Finite (of_int (the (digits 10 t)))) (split_space s)"
    using num by simp
  then show ?thesis
    using parseTicketNumbers_cases [of s] assms(1) ok by simp
qed

subsection \<open>What the validator accepts\<close>

text \<open>
  Claim C2, as amended. The pieces of the input are what lies between single space
  characters. \<open>parseTicketNumbers\<close> returns the converted pieces when there are six
  of them and \<open>Number\<close> turns each into a finite number from 1 to 49, integer or not;
  in every other case (another count, a piece that is not a number, a value outside
  the range) it fails.
\<close>

theorem parseTicketNumbers_accepts:
  "parseTicketNumbers s =
     (if length (split_space s) = 6
         \<and> (\<forall>t\<in>set (split_space s). \<exists>q. Number t = Finite q \<and> 1 \<le> q \<and> q \<le> 49)
      then Some (map Number (split_space s)) else None)"
  by (rule parseTicketNumbers_cases)

theorem parseTicketNumbers_accepts_witness:
  "length (split_space ''1 2 3 4 5 6'') = 6
   \<and> parseTicketNumbers ''1 2 3 4 5 6'' = Some (map Number (split_space ''1 2 3 4 5 6''))"
proof -
  have six: "length (split_space ''1 2 3 4 5 6'') = 6" by simp
  have some: "parseTicketNumbers ''1 2 3 4 5 6'' \<noteq> None" by (simp add: parse_sample)
  show ?thesis
    using parseTicketNumbers_accepts [of "''1 2 3 4 5 6''"] six some
    by (simp split: if_splits)
qed

text \<open>
  Claim C2 as stated fails: the piece \<open>1.5\<close> is not an integer, and the input is
  accepted with the value \<open>3/2\<close> on the ticket.
\<close>

theorem parseTicketNumbers_accepts_fraction:
  "parseTicketNumbers ''1.5 2 3 4 5 6'' =
     Some [Finite (3 / 2), Finite 2, Finite 3, Finite 4, Finite 5, Finite 6]
   \<and> (3 / 2 :: rat) \<notin> \<int>"
proof -
  have "parseTicketNumbers ''1.5 2 3 4 5 6'' =
     Some [Finite (3 / 2), Finite 2, Finite 3, Finite 4, Finite 5, Finite 6]"
    by code_simp
  then show ?thesis using three_halves_not_integer by simp
qed

section \<open>Properties of the purchase\<close>

lemma less_eq_number_of_int:
  "less_eq_number (Finite (of_int b)) (Finite (of_int a)) \<longleftrightarrow> b \<le> a"
  by (auto simp: less_eq_number_def)

lemma minus_number_of_int:
  assumes "b \<le> a" and "a - b < 2 ^ 53"
  shows "minus_number (Finite (of_int a)) (Finite (of_int b)) = Finite (of_int (a - b))"
  using toDouble_of_int [of "a - b"] assms by simp

lemma sample_buy:
  "fst (buyTicket sample_config (Some ''t9'') ''A'' ''1 2 3 4 5 6'' (sample_store price pot [])) \<noteq> None"
  by (simp add: buyTicket_def parse_sample getTicketOf_def sub_cash_def less_eq_number_def
      sample_store_def sample_config_def sample_ledger_def Let_def)

text \<open>
  Claim C6. When the numbers are valid, the identity holds no ticket and the debit of
  the ticket price fails, \<open>buyTicket\<close> returns \<open>null\<close> and the store differs from the
  one before only by the notification sent: no ticket is created, the lottery document
  with its jackpot is as it was, and so are all balances.
\<close>

theorem buyTicket_debit_fails:
  assumes "parseTicketNumbers numbers = Some ns" and "getTicketOf p (tickets s) = None"
    and "\<not> fst (sub_cash p (cfg_ticketPrice cfg) (currency s))"
  shows "buyTicket cfg created p numbers s = (None, s\<lparr>sent := sent s @ [NotEnoughMoney p]\<rparr>)
     \<and> tickets (snd (buyTicket cfg created p numbers s)) = tickets s
     \<and> lottery (snd (buyTicket cfg created p numbers s)) = lottery s
     \<and> currency (snd (buyTicket cfg created p numbers s)) = currency s"
proof -
  have "buyTicket cfg created p numbers s = (None, s\<lparr>sent := sent s @ [NotEnoughMoney p]\<rparr>)"
    using assms by (cases "sub_cash p (cfg_ticketPrice cfg) (currency s)") (auto simp: buyTicket_def)
  then show ?thesis by simp
qed

theorem buyTicket_debit_fails_witness:
  "\<not> fst (sub_cash ''B'' (cfg_ticketPrice sample_config) (currency (sample_store 100 500 [])))
   \<and> buyTicket sample_config (Some ''t9'') ''B'' ''1 2 3 4 5 6'' (sample_store 100 500 [])
       = (None, (sample_store 100 500 [])\<lparr>sent := [NotEnoughMoney ''B'']\<rparr>)"
  using buyTicket_debit_fails [where numbers = "''1 2 3 4 5 6''" and p = "''B''"
      and s = "sample_store 100 500 []" and cfg = sample_config and created = "Some ''t9''"
      and ns = "[Finite 1, Finite 2, Finite 3, Finite 4, Finite 5, Finite 6]"]
    parse_sample
  by (simp add: getTicketOf_def sub_cash_def less_eq_number_def sample_store_def
      sample_config_def sample_ledger_def)

text \<open>
  Claim C7. An identity that already holds a ticket gets \<open>null\<close> from \<open>buyTicket\<close>,
  whatever its balance, the numbers it sends and the answer the database would give:
  no balance changes, the ticket collection and the lottery document with its jackpot
  are as they were.
\<close>

theorem buyTicket_already_entered:
  assumes "getTicketOf p (tickets s) \<noteq> None"
  shows "fst (buyTicket cfg created p numbers s) = None
     \<and> currency (snd (buyTicket cfg created p numbers s)) = currency s
     \<and> tickets (snd (buyTicket cfg created p numbers s)) = tickets s
     \<and> lottery (snd (buyTicket cfg created p numbers s)) = lottery s"
  using assms by (auto simp: buyTicket_def split: option.splits)

theorem buyTicket_already_entered_witness:
  "getTicketOf ''A'' (tickets (sample_store 100 500 [sample_ticket ''t1'' ''A''])) \<noteq> None
   \<and> fst (buyTicket sample_config (Some ''t9'') ''A'' ''1 2 3 4 5 6''
        (sample_store 100 500 [sample_ticket ''t1'' ''A''])) = None
   \<and> cash (currency (snd (buyTicket sample_config (Some ''t9'') ''A'' ''1 2 3 4 5 6''
        (sample_store 100 500 [sample_ticket ''t1'' ''A''])))) ''A'' = Finite 150
   \<and> tickets (snd (buyTicket sample_config (Some ''t9'') ''A'' ''1 2 3 4 5 6''
        (sample_store 100 500 [sample_ticket ''t1'' ''A'']))) = [sample_ticket ''t1'' ''A'']
   \<and> map_option jackpot (lottery (snd (buyTicket sample_config (Some ''t9'') ''A'' ''1 2 3 4 5 6''
        (sample_store 100 500 [sample_ticket ''t1'' ''A''])))) = Some (Finite 500)"
  using buyTicket_already_entered [where p = "''A''"
      and s = "sample_store 100 500 [sample_ticket ''t1'' ''A'']" and cfg = sample_config
      and created = "Some ''t9''" and numbers = "''1 2 3 4 5 6''"]
  by (simp add: getTicketOf_def sample_store_def sample_ticket_def sample_ledger_def)

text \<open>
  A successful purchase with a lottery document raises the stored jackpot by the
  \<open>ticketPrice\<close> field of that document and lowers the buyer's cash, which covered
  it, by the configured price \<open>lotteryConfig.ticketPrice\<close>; the sum and the
  difference are those of doubles. The id that \<open>Database.create\<close> answered is not
  empty then.
\<close>

lemma buyTicket_success:
  assumes "buyTicket cfg created p numbers s = (Some t, s')" and "lottery s = Some ls"
  shows "map_option jackpot (lottery s') = Some (plus_number (jackpot ls) (ticketPrice ls))
     \<and> cash (currency s') p = minus_number (cash (currency s) p) (cfg_ticketPrice cfg)
     \<and> less_eq_number (cfg_ticketPrice cfg) (cash (currency s) p)
     \<and> created \<noteq> None \<and> created \<noteq> Some []"
  using assms
  by (cases "sub_cash p (cfg_ticketPrice cfg) (currency s)")
     (auto simp: buyTicket_def sub_cash_def Let_def split: option.splits if_splits bool.splits)

text \<open>
  An empty id from \<open>Database.create\<close> is falsy as well: \<open>buyTicket\<close> returns \<open>null\<close>
  after the debit and leaves the lottery document as it was.
\<close>

lemma buyTicket_empty_id:
  assumes "parseTicketNumbers numbers = Some ns" and "getTicketOf p (tickets s) = None"
    and "fst (sub_cash p (cfg_ticketPrice cfg) (currency s))"
  shows "fst (buyTicket cfg (Some []) p numbers s) = None
     \<and> cash (currency (snd (buyTicket cfg (Some []) p numbers s))) p
          = minus_number (cash (currency s) p) (cfg_ticketPrice cfg)
     \<and> lottery (snd (buyTicket cfg (Some []) p numbers s)) = lottery s"
  using assms
  by (cases "sub_cash p (cfg_ticketPrice cfg) (currency s)")
     (auto simp: buyTicket_def sub_cash_def Let_def split: if_splits)

lemma buyTicket_same_price:
  "map_option jackpot (lottery (snd (buyTicket sample_config (Some ''t9'') ''A'' ''1 2 3 4 5 6''
        (sample_store 100 500 [])))) = Some (Finite 600)
   \<and> cash (currency (snd (buyTicket sample_config (Some ''t9'') ''A'' ''1 2 3 4 5 6''
        (sample_store 100 500 [])))) ''A'' = Finite 50"
proof -
  let ?r = "buyTicket sample_config (Some ''t9'') ''A'' ''1 2 3 4 5 6'' (sample_store 100 500 [])"
  have some: "fst ?r \<noteq> None" by (rule sample_buy)
  then have r: "?r = (Some (the (fst ?r)), snd ?r)" by (cases ?r) auto
  have l: "lottery (sample_store 100 500 []) =
      Some \<lparr>ticketPrice = Finite 100, jackpot = Finite 500, lastDrawDate = 0, winningNumbers = []\<rparr>"
    by (simp add: sample_store_def)
  show ?thesis
    using buyTicket_success [OF r l]
    by (simp add: sample_store_def sample_config_def sample_ledger_def toDouble_numeral)
qed

text \<open>
  Claim C8: after a successful purchase with a lottery document the jackpot is higher
  by the ticket price and the buyer's balance lower by the ticket price. The code
  takes the price from two places, and the claim fails where they differ: with a
  configured price of 100 and a price of 50 in the lottery document, the purchase
  succeeds, the buyer's cash goes from 150 to 50 and the jackpot from 500 to 550.
\<close>

theorem buyTicket_two_prices:
  "cfg_ticketPrice sample_config = Finite 100
   \<and> map_option ticketPrice (lottery (sample_store 50 500 [])) = Some (Finite 50)
   \<and> fst (buyTicket sample_config (Some ''t9'') ''A'' ''1 2 3 4 5 6'' (sample_store 50 500 [])) \<noteq> None
   \<and> map_option jackpot (lottery (sample_store 50 500 [])) = Some (Finite 500)
   \<and> map_option jackpot (lottery (snd (buyTicket sample_config (Some ''t9'') ''A'' ''1 2 3 4 5 6''
        (sample_store 50 500 [])))) = Some (Finite 550)
   \<and> cash (currency (sample_store 50 500 [])) ''A'' = Finite 150
   \<and> cash (currency (snd (buyTicket sample_config (Some ''t9'') ''A'' ''1 2 3 4 5 6''
        (sample_store 50 500 [])))) ''A'' = Finite 50"
  by (simp add: buyTicket_def parse_sample getTicketOf_def sub_cash_def less_eq_number_def
      sample_store_def sample_config_def sample_ledger_def Let_def toDouble_numeral)

text \<open>
  Claim C10. When the numbers are valid, the identity holds no ticket, the debit
  succeeds and \<open>Database.create\<close> answers without an id, \<open>buyTicket\<close> returns \<open>null\<close>;
  the store differs from the one before only by the buyer's cash, which stays lower
  by the ticket price: the lottery document with its jackpot and the ticket
  collection are as they were. The difference is that of doubles; for a balance
  \<open>a\<close> below \<open>2 ^ 53\<close> and a price \<open>b \<ge> 0\<close>, both integers, it is \<open>a - b\<close>.
\<close>

theorem buyTicket_create_fails:
  assumes "parseTicketNumbers numbers = Some ns" and "getTicketOf p (tickets s) = None"
    and "fst (sub_cash p (cfg_ticketPrice cfg) (currency s))"
  shows "buyTicket cfg None p numbers s =
      (None, s\<lparr>currency := (currency s)\<lparr>cash :=
         (cash (currency s))(p := minus_number (cash (currency s) p) (cfg_ticketPrice cfg))\<rparr>\<rparr>)
     \<and> cash (currency (snd (buyTicket cfg None p numbers s))) p
          = minus_number (cash (currency s) p) (cfg_ticketPrice cfg)
     \<and> lottery (snd (buyTicket cfg None p numbers s)) = lottery s
     \<and> tickets (snd (buyTicket cfg None p numbers s)) = tickets s
     \<and> (\<forall>a b. cash (currency s) p = Finite (of_int a) \<and> cfg_ticketPrice cfg = Finite (of_int b)
              \<and> a < 2 ^ 53 \<and> 0 \<le> b
          \<longrightarrow> cash (currency (snd (buyTicket cfg None p numbers s))) p = Finite (of_int (a - b)))"
proof -
  have r: "buyTicket cfg None p numbers s =
      (None, s\<lparr>currency := (currency s)\<lparr>cash :=
         (cash (currency s))(p := minus_number (cash (currency s) p) (cfg_ticketPrice cfg))\<rparr>\<rparr>)"
    using assms
    by (cases "sub_cash p (cfg_ticketPrice cfg) (currency s)")
       (auto simp: buyTicket_def sub_cash_def split: if_splits)
  have covered: "less_eq_number (cfg_ticketPrice cfg) (cash (currency s) p)"
    using assms(3) by (simp add: sub_cash_def split: if_splits)
  have exact: "minus_number (cash (currency s) p) (cfg_ticketPrice cfg) = Finite (of_int (a - b))"
    if "cash (currency s) p = Finite (of_int a) \<and> cfg_ticketPrice cfg = Finite (of_int b)
              \<and> a < 2 ^ 53 \<and> 0 \<le> b" for a b
  proof -
    have ca: "cash (currency s) p = Finite (of_int a)"
      and pb: "cfg_ticketPrice cfg = Finite (of_int b)"
      and bound: "a < 2 ^ 53" "0 \<le> b"
      using that by simp_all
    have le: "b \<le> a" using covered unfolding ca pb by (simp add: less_eq_number_of_int)
    have "a - b < 2 ^ 53" using bound by simp
    with le show ?thesis unfolding ca pb by (rule minus_number_of_int)
  qed
  show ?thesis using r exact by simp
qed

theorem buyTicket_create_fails_witness:
  "fst (sub_cash ''A'' (cfg_ticketPrice sample_config) (currency (sample_store 100 500 [])))
   \<and> fst (buyTicket sample_config None ''A'' ''1 2 3 4 5 6'' (sample_store 100 500 [])) = None
   \<and> cash (currency (snd (buyTicket sample_config None ''A'' ''1 2 3 4 5 6''
        (sample_store 100 500 [])))) ''A'' = Finite 50
   \<and> map_option jackpot (lottery (snd (buyTicket sample_config None ''A'' ''1 2 3 4 5 6''
        (sample_store 100 500 [])))) = Some (Finite 500)
   \<and> tickets (snd (buyTicket sample_config None ''A'' ''1 2 3 4 5 6'' (sample_store 100 500 []))) = []"
  using buyTicket_create_fails [where numbers = "''1 2 3 4 5 6''" and p = "''A''"
      and s = "sample_store 100 500 []" and cfg = sample_config
      and ns = "[Finite 1, Finite 2, Finite 3, Finite 4, Finite 5, Finite 6]"]
    parse_sample
  by (simp add: getTicketOf_def sub_cash_def less_eq_number_def sample_store_def
      sample_config_def sample_ledger_def toDouble_numeral)

section \<open>Properties of the scheduler\<close>

lemma todays_draw:
  "MakeDate (Day now) (MakeTime drawTime_hour drawTime_minute 0 0) = now div 86400000 * 86400000 + 64800000"
  by (simp add: MakeDate_def Day_def MakeTime_def drawTime_hour_def drawTime_minute_def msPerDay_def)

lemma next_day:
  "MakeDate (Day (d * 86400000 + 64800000) + 1) (TimeWithinDay (d * 86400000 + 64800000))
     = (d + 1) * 86400000 + 64800000"
  by (simp add: MakeDate_def Day_def TimeWithinDay_def msPerDay_def)

lemma scheduleDraw_fst:
  "fst (scheduleDraw now) =
     (if now \<le> now div 86400000 * 86400000 + 64800000 then now div 86400000 * 86400000 + 64800000
      else (now div 86400000 + 1) * 86400000 + 64800000)"
  unfolding scheduleDraw_def Let_def todays_draw next_day by simp

lemma scheduleDraw_snd: "snd (scheduleDraw now) = fst (scheduleDraw now) - now"
  by (simp add: scheduleDraw_def Let_def)

lemma scheduleDraw_least:
  assumes "now \<le> t" and "t mod 86400000 = 64800000"
  shows "fst (scheduleDraw now) \<le> t"
proof -
  define d where "d = now div 86400000"
  define k where "k = t div 86400000"
  have t: "t = k * 86400000 + 64800000"
    unfolding k_def using assms(2) div_mult_mod_eq [of t 86400000] by simp
  have now: "now = d * 86400000 + now mod 86400000"
    unfolding d_def by simp
  have m: "0 \<le> now mod 86400000" "now mod 86400000 < 86400000" by simp_all
  have dk: "d \<le> k" using assms(1) t now m by linarith
  show ?thesis
  proof (cases "now \<le> d * 86400000 + 64800000")
    case True
    then show ?thesis unfolding scheduleDraw_fst d_def [symmetric] using dk t by simp
  next
    case False
    then have "d < k" using assms(1) t by linarith
    then show ?thesis unfolding scheduleDraw_fst d_def [symmetric] using False t by simp
  qed
qed

text \<open>
  Claim C9. Called at \<open>now\<close>, the scheduler aims at 18:00 of the day of \<open>now\<close> when
  \<open>now\<close> is not later than that instant, and at 18:00 of the next day otherwise, as
  for a call at 19:00. With the offset of the time zone constant from \<open>now\<close> to that
  instant, as the model of \<open>Date\<close> has it, the delay it hands to the timer leads from
  \<open>now\<close> to that instant, is never negative and is shorter than a day. No instant at
  18:00 lies between \<open>now\<close> and the one chosen.
\<close>

theorem scheduleDraw_next:
  "(let today = MakeDate (Day now) (MakeTime 18 0 0 0);
        tomorrow = MakeDate (Day now + 1) (MakeTime 18 0 0 0);
        nextDraw = fst (scheduleDraw now);
        timeUntilDraw = snd (scheduleDraw now)
    in (now \<le> today \<longrightarrow> nextDraw = today)
     \<and> (today < now \<longrightarrow> nextDraw = tomorrow)
     \<and> (TimeWithinDay now = MakeTime 19 0 0 0 \<longrightarrow> nextDraw = tomorrow)
     \<and> timeUntilDraw = nextDraw - now
     \<and> 0 \<le> timeUntilDraw \<and> timeUntilDraw < msPerDay
     \<and> (\<forall>t. now \<le> t \<and> TimeWithinDay t = MakeTime 18 0 0 0 \<longrightarrow> nextDraw \<le> t))"
proof -
  define d where "d = now div 86400000"
  have now: "now = d * 86400000 + now mod 86400000"
    unfolding d_def by simp
  have m: "0 \<le> now mod 86400000" "now mod 86400000 < 86400000" by simp_all
  have today: "MakeDate (Day now) (MakeTime 18 0 0 0) = d * 86400000 + 64800000"
    by (simp add: MakeDate_def Day_def MakeTime_def msPerDay_def d_def)
  have tomorrow: "MakeDate (Day now + 1) (MakeTime 18 0 0 0) = (d + 1) * 86400000 + 64800000"
    by (simp add: MakeDate_def Day_def MakeTime_def msPerDay_def d_def)
  have nxt: "fst (scheduleDraw now) =
     (if now \<le> d * 86400000 + 64800000 then d * 86400000 + 64800000
      else (d + 1) * 86400000 + 64800000)"
    unfolding d_def by (rule scheduleDraw_fst)
  have c1: "now \<le> d * 86400000 + 64800000 \<longrightarrow> fst (scheduleDraw now) = d * 86400000 + 64800000"
    by (simp add: nxt)
  have c2: "d * 86400000 + 64800000 < now \<longrightarrow> fst (scheduleDraw now) = (d + 1) * 86400000 + 64800000"
    by (simp add: nxt)
  have c3: "TimeWithinDay now = MakeTime 19 0 0 0 \<longrightarrow> fst (scheduleDraw now) = (d + 1) * 86400000 + 64800000"
  proof
    assume "TimeWithinDay now = MakeTime 19 0 0 0"
    then have "now mod 86400000 = 68400000" by (simp add: TimeWithinDay_def MakeTime_def msPerDay_def)
    then have "d * 86400000 + 64800000 < now" using now by linarith
    then show "fst (scheduleDraw now) = (d + 1) * 86400000 + 64800000" using c2 by simp
  qed
  have c5: "0 \<le> fst (scheduleDraw now) - now"
    unfolding nxt using now m by (simp split: if_splits) linarith
  have c6: "fst (scheduleDraw now) - now < msPerDay"
    unfolding nxt msPerDay_def using now m by (simp split: if_splits) linarith
  have c7: "\<forall>t. now \<le> t \<and> TimeWithinDay t = MakeTime 18 0 0 0 \<longrightarrow> fst (scheduleDraw now) \<le> t"
    using scheduleDraw_least by (simp add: TimeWithinDay_def MakeTime_def msPerDay_def)
  show ?thesis
    unfolding Let_def today tomorrow scheduleDraw_snd
    using c1 c2 c3 c5 c6 c7 by simp
qed

theorem scheduleDraw_next_witness:
  "fst (scheduleDraw (MakeDate 20000 (MakeTime 19 0 0 0))) = MakeDate 20001 (MakeTime 18 0 0 0)
   \<and> fst (scheduleDraw (MakeDate 20000 (MakeTime 17 30 0 0))) = MakeDate 20000 (MakeTime 18 0 0 0)
   \<and> snd (scheduleDraw (MakeDate 20000 (MakeTime 18 0 0 0))) = 0"
  using scheduleDraw_next [of "MakeDate 20000 (MakeTime 19 0 0 0)"]
    scheduleDraw_next [of "MakeDate 20000 (MakeTime 17 30 0 0)"]
    scheduleDraw_next [of "MakeDate 20000 (MakeTime 18 0 0 0)"]
  by (simp add: Let_def MakeDate_def MakeTime_def Day_def TimeWithinDay_def msPerDay_def)

end
